theory Spec2Isabelle
  imports Complex_Main "HOL-Library.AList"
begin

section \<open>LightsOut (src/src/dynamic.ts): a shallow embedding\<close>

text \<open>
  The engine of \<^verbatim>\<open>class LightsOut\<close> is embedded as functions on two pieces of state:
  the private fields of the class (record \<open>engine\<close>) and the part of the host document
  the engine writes to (record \<open>dom\<close>: the inline style and dataset of every element,
  the text of the constructed style sheet, the adopted style sheet lists).
  What the engine only reads from the browser (tag names, selector matching,
  connectedness, computed style, the document's style sheets) is a record \<open>host\<close> of
  functions, and the colour library colord, which is a dependency and not part of the
  repository, is a record \<open>'c colord\<close> of its methods over an abstract colour type.
  The theorems about the engine are stated for every host and every colour library;
  the one property the library has to have is named where it is used.
\<close>

subsection \<open>Strings\<close>

text \<open>\<^verbatim>\<open>String.prototype.startsWith\<close>, and \<^verbatim>\<open>/lit/.test(s)\<close> for a literal pattern.\<close>

definition startsWith :: "string \<Rightarrow> string \<Rightarrow> bool" where
  "startsWith s p = (take (length p) s = p)"

fun contains :: "string \<Rightarrow> string \<Rightarrow> bool" where
  "contains [] p = (p = [])"
| "contains (c # cs) p = (startsWith (c # cs) p \<or> contains cs p)"

text \<open>
  \<^verbatim>\<open>s.replace(/lit/g, '')\<close>: every non-overlapping occurrence of the literal, scanning
  from the left, is removed. The counter is the number of characters of the current
  occurrence still to be skipped.
\<close>

fun removeAll_from :: "string \<Rightarrow> nat \<Rightarrow> string \<Rightarrow> string" where
  "removeAll_from p k [] = []"
| "removeAll_from p (Suc k) (c # cs) = removeAll_from p k cs"
| "removeAll_from p 0 (c # cs) =
     (if p \<noteq> [] \<and> startsWith (c # cs) p then removeAll_from p (length p - 1) cs
      else c # removeAll_from p 0 cs)"

definition removeAll :: "string \<Rightarrow> string \<Rightarrow> string" where
  "removeAll p s = removeAll_from p 0 s"

definition lowerChar :: "char \<Rightarrow> char" where
  "lowerChar c =
     (case map_of (zip ''ABCDEFGHIJKLMNOPQRSTUVWXYZ'' ''abcdefghijklmnopqrstuvwxyz'') c of
        Some l \<Rightarrow> l
      | None \<Rightarrow> c)"

definition toLowerCase :: "string \<Rightarrow> string" where
  "toLowerCase s = map lowerChar s"

subsection \<open>The colour value pattern \<^verbatim>\<open>#colorValueRgx\<close>\<close>

text \<open>
  \<^verbatim>\<open>/rgba?\([\d,.\s]*\)|hsla?\([\d,.\s]*\)|#[A-Fa-f0-9]{3,8}/g\<close>.
  \<open>matchColorValue s\<close> is the length of the match that starts at the first character
  of \<open>s\<close>, if there is one. The three alternatives start with different characters; the
  character class does not contain the closing parenthesis, so the greedy star never
  has to give characters back.
\<close>

definition isDigit :: "char \<Rightarrow> bool" where
  "isDigit c = (c \<in> set ''0123456789'')"

definition isSpace :: "char \<Rightarrow> bool" where
  "isSpace c = (c \<in> set [CHR '' '', CHR 0x09, CHR 0x0A, CHR 0x0B, CHR 0x0C, CHR 0x0D])"

definition isHexDigit :: "char \<Rightarrow> bool" where
  "isHexDigit c = (c \<in> set ''0123456789abcdefABCDEF'')"

definition isArgChar :: "char \<Rightarrow> bool" where
  "isArgChar c = (isDigit c \<or> c = CHR '','' \<or> c = CHR ''.'' \<or> isSpace c)"

definition matchFunctional :: "string \<Rightarrow> string \<Rightarrow> nat option" where
  "matchFunctional name s =
     (if startsWith s name then
        (let r = drop (length name) s;
             a = (if startsWith r ''a'' then 1 else 0);
             r1 = drop a r
         in if startsWith r1 ''('' then
              (let args = takeWhile isArgChar (drop 1 r1)
               in if startsWith (drop (1 + length args) r1) '')''
                  then Some (length name + a + 1 + length args + 1)
                  else None)
            else None)
      else None)"

definition matchHex :: "string \<Rightarrow> nat option" where
  "matchHex s =
     (if startsWith s ''#'' then
        (let n = min 8 (length (takeWhile isHexDigit (drop 1 s)))
         in if 3 \<le> n then Some (1 + n) else None)
      else None)"

definition matchColorValue :: "string \<Rightarrow> nat option" where
  "matchColorValue s =
     (case matchFunctional ''rgb'' s of
        Some n \<Rightarrow> Some n
      | None \<Rightarrow>
          (case matchFunctional ''hsl'' s of
             Some n \<Rightarrow> Some n
           | None \<Rightarrow> matchHex s))"

text \<open>
  \<^verbatim>\<open>s.replaceAll(this.#colorValueRgx, f)\<close>: every match is replaced by what the
  callback returns for it.
\<close>

fun replaceColorValues_from :: "(string \<Rightarrow> string) \<Rightarrow> nat \<Rightarrow> string \<Rightarrow> string" where
  "replaceColorValues_from f k [] = []"
| "replaceColorValues_from f (Suc k) (c # cs) = replaceColorValues_from f k cs"
| "replaceColorValues_from f 0 (c # cs) =
     (case matchColorValue (c # cs) of
        Some n \<Rightarrow> f (take n (c # cs)) @ replaceColorValues_from f (n - 1) cs
      | None \<Rightarrow> c # replaceColorValues_from f 0 cs)"

definition replaceColorValues :: "(string \<Rightarrow> string) \<Rightarrow> string \<Rightarrow> string" where
  "replaceColorValues f s = replaceColorValues_from f 0 s"

subsection \<open>The document\<close>

text \<open>
  A style sheet carries the rules the engine reads: style rules (selector text and
  rule text), media rules (one level of nested rules is read) and every other kind.
\<close>

datatype cssRule =
    CSSStyleRule string string
  | CSSMediaRule "cssRule list"
  | CSSOtherRule

record sheet =
  sheetId :: nat
  href :: "string option"
  sheetRules :: "cssRule list"

text \<open>
  The element tree. A node is an \<^verbatim>\<open>Element\<close>; text and comment nodes are never
  returned by \<^verbatim>\<open>querySelectorAll('*')\<close> and are left out. \<open>nid\<close> is the identity
  of the element, \<open>isHTMLElement\<close> the outcome of \<^verbatim>\<open>instanceof HTMLElement\<close> (false for
  SVG and MathML elements), \<open>shadowRoot\<close> the open shadow root if there is one.
\<close>

datatype 'n shadow_root = ShadowRoot (styleSheets: "sheet list") (nodes: "'n list")

datatype node = Node (nid: nat) (isHTMLElement: bool) (childNodes: "node list")
  (shadowRoot: "node shadow_root option")

text \<open>\<^verbatim>\<open>el.querySelectorAll('*')\<close>: the descendants in document order, shadow trees not entered.\<close>

fun descendants :: "node \<Rightarrow> node list" where
  "descendants (Node i b cs sh) = concat (map (\<lambda>c. c # descendants c) cs)"

definition querySelectorAll :: "node list \<Rightarrow> node list" where
  "querySelectorAll cs = concat (map (\<lambda>c. c # descendants c) cs)"

text \<open>
  The inline style declarations and the \<^verbatim>\<open>data-*\<close> attributes the engine reads or
  writes. An inline property that is not declared reads as the empty string, as
  \<^verbatim>\<open>el.style.color\<close> does; a dataset entry that is absent is \<open>None\<close>
  (\<^verbatim>\<open>undefined\<close>).
\<close>

record inlineStyle =
  style_color :: string
  style_backgroundColor :: string
  style_borderColor :: string
  style_backgroundImage :: string

record dataset =
  lightsOut :: "string option"
  lightsOutGradient :: "string option"
  originalColor :: "string option"
  originalBgColor :: "string option"
  originalBorderColor :: "string option"
  originalBgImage :: "string option"

record element =
  style :: inlineStyle
  dataset :: dataset

record computedStyle =
  computed_color :: string
  computed_backgroundColor :: string
  computed_borderColor :: string
  computed_backgroundImage :: string

datatype adopted = EngineSheet | PageSheet nat

record dom =
  elems :: "nat \<Rightarrow> element"
  sheetText :: string
  documentAdopted :: "adopted list"
  shadowAdopted :: "nat \<Rightarrow> adopted list"

text \<open>
  What the engine reads from the browser. The computed style of an element depends on
  the document as the engine has written it so far. Tag names, connectedness and
  selector matching are those of the moment of the call; selector matching is taken not
  to depend on the \<^verbatim>\<open>style\<close> and \<^verbatim>\<open>data-*\<close> attributes the engine itself writes.
\<close>

record host =
  tagName :: "nat \<Rightarrow> string"
  matches :: "nat \<Rightarrow> string \<Rightarrow> bool"
  isConnected :: "nat \<Rightarrow> bool"
  getComputedStyle :: "dom \<Rightarrow> nat \<Rightarrow> computedStyle"
  documentStyleSheets :: "sheet list"
  origin :: string

text \<open>\<^verbatim>\<open>style.setProperty\<close> and \<^verbatim>\<open>style.removeProperty\<close> on the four properties used.\<close>

definition setProperty :: "string \<Rightarrow> string \<Rightarrow> element \<Rightarrow> element" where
  "setProperty p v x =
     (if p = ''color'' then x\<lparr>style := (style x)\<lparr>style_color := v\<rparr>\<rparr>
      else if p = ''background-color'' then x\<lparr>style := (style x)\<lparr>style_backgroundColor := v\<rparr>\<rparr>
      else if p = ''border-color'' then x\<lparr>style := (style x)\<lparr>style_borderColor := v\<rparr>\<rparr>
      else if p = ''background-image'' then x\<lparr>style := (style x)\<lparr>style_backgroundImage := v\<rparr>\<rparr>
      else x)"

definition removeProperty :: "string \<Rightarrow> element \<Rightarrow> element" where
  "removeProperty p x = setProperty p '''' x"

text \<open>JavaScript truthiness of a dataset entry: defined and not the empty string.\<close>

definition truthy :: "string option \<Rightarrow> bool" where
  "truthy v = (case v of None \<Rightarrow> False | Some s \<Rightarrow> s \<noteq> '''')"

subsection \<open>The colour library\<close>

text \<open>
  The methods of colord (with its a11y plugin) that the engine calls. \<open>colord\<close> is
  the parser \<^verbatim>\<open>colord(input)\<close>; \<open>c_alpha\<close> is \<^verbatim>\<open>.alpha()\<close> and \<open>c_setAlpha\<close> is
  \<^verbatim>\<open>.alpha(value)\<close>; \<open>c_isReadable c bg level\<close> is
  \<^verbatim>\<open>c.isReadable(bg, { level })\<close>, whose default level is AA.
\<close>

datatype level = AA | AAA

record 'c colord =
  colord :: "string \<Rightarrow> 'c"
  c_darken :: "'c \<Rightarrow> real \<Rightarrow> 'c"
  c_lighten :: "'c \<Rightarrow> real \<Rightarrow> 'c"
  c_alpha :: "'c \<Rightarrow> real"
  c_setAlpha :: "'c \<Rightarrow> real \<Rightarrow> 'c"
  c_isDark :: "'c \<Rightarrow> bool"
  c_isReadable :: "'c \<Rightarrow> string \<Rightarrow> level \<Rightarrow> bool"
  c_toHex :: "'c \<Rightarrow> string"

subsection \<open>The engine\<close>

text \<open>
  The options fixed by the constructor, and the private fields that change.
  \<open>elements\<close> is the \<^verbatim>\<open>Set\<close> \<^verbatim>\<open>#elements\<close> in insertion order, which is the
  order of \<^verbatim>\<open>forEach\<close>. \<open>observers\<close> is the key set of the \<^verbatim>\<open>Map\<close>
  \<^verbatim>\<open>#observers\<close>: the entry of a host is the observer created for its shadow root,
  which observes from its creation until it is disconnected and deleted in the same
  step. \<open>pageObserved\<close> is the set of targets \<^verbatim>\<open>#pageObserver\<close> observes; it is
  empty when the observer is disconnected.
\<close>

record config =
  verbose :: bool
  pageRootAlpha :: real
  preserveHoverBorderColor :: bool
  htmlFilterSet :: "string list"
  cssRules :: string

record engine =
  isEnabled :: bool
  elements :: "nat list"
  observers :: "nat set"
  shadowRoots :: "nat list"
  shadowSheets :: "sheet list"
  hoverColorRules :: "(string \<times> cssRule) list"
  pageRoot :: node
  pageObserved :: "nat set"
  backgroundColor :: string

text \<open>\<^verbatim>\<open>Set.prototype.add\<close> on a set kept in insertion order.\<close>

definition set_add :: "'a \<Rightarrow> 'a list \<Rightarrow> 'a list" where
  "set_add x xs = (if x \<in> set xs then xs else xs @ [x])"

definition defaultFilterSelectors :: "string list" where
  "defaultFilterSelectors =
     [''html'', ''head'', ''title'', ''meta'', ''script'', ''style'', ''link'', ''iframe'',
      ''svg'', ''img'', ''canvas'', ''video'', ''audio'']"

text \<open>The constructor's \<^verbatim>\<open>#htmlFilterSet\<close>, from the option \<^verbatim>\<open>filterSelectors\<close>.\<close>

definition new_htmlFilterSet :: "string list option \<Rightarrow> string list" where
  "new_htmlFilterSet filterSelectors =
     (case filterSelectors of
        Some sels \<Rightarrow> fold set_add (map toLowerCase sels) []
      | None \<Rightarrow> defaultFilterSelectors)"

subsubsection \<open>The pageRoot setter\<close>

datatype jsvalue = ElementValue node | OtherValue

datatype error = Error string

text \<open>
  The setter returns the error it throws, if any, and the fields as the call leaves them.
\<close>

definition instanceofHTMLElement :: "jsvalue \<Rightarrow> bool" where
  "instanceofHTMLElement v = (case v of ElementValue n \<Rightarrow> isHTMLElement n | OtherValue \<Rightarrow> False)"

definition set_pageRoot :: "jsvalue \<Rightarrow> engine \<Rightarrow> error option \<times> engine" where
  "set_pageRoot v e =
     (case v of
        ElementValue n \<Rightarrow>
          (if \<not> isHTMLElement n
           then (Some (Error ''pageRoot must be an instance of HTMLElement''), e)
           else
             (let e1 = e\<lparr>pageRoot := n\<rparr>
              in if isEnabled e1
                 then (None, e1\<lparr>pageObserved := insert (nid n) {}\<rparr>)
                 else (None, e1)))
      | OtherValue \<Rightarrow> (Some (Error ''pageRoot must be an instance of HTMLElement''), e))"

text \<open>The field initialisers of the class, with the constructor's \<^verbatim>\<open>pageRoot\<close>.\<close>

definition new_engine :: "node \<Rightarrow> engine" where
  "new_engine body =
     \<lparr>isEnabled = False, elements = [], observers = {}, shadowRoots = [], shadowSheets = [],
      hoverColorRules = [], pageRoot = body, pageObserved = {}, backgroundColor = ''''\<rparr>"

subsubsection \<open>\<^verbatim>\<open>#traverse\<close>, \<^verbatim>\<open>#getHoverBorderColorRules\<close> and \<^verbatim>\<open>#walk\<close>\<close>

definition sameOrigin :: "host \<Rightarrow> sheet \<Rightarrow> bool" where
  "sameOrigin h s = (case href s of None \<Rightarrow> True | Some u \<Rightarrow> u = '''' \<or> startsWith u (origin h))"

lemma size_child: "x \<in> set cs \<Longrightarrow> size x < size (Node i b cs sh)"
  using size_list_estimation'[of x cs "size x" size] by auto

lemma size_shadow_child: "x \<in> set (nodes sr) \<Longrightarrow> size x < size (Node i b cs (Some sr))"
  using size_list_estimation'[of x "nodes sr" "size x" size] by (cases sr) auto

lemma size_descendants: "x \<in> set (descendants n) \<Longrightarrow> size x < size n"
proof (induction n arbitrary: x rule: descendants.induct)
  case (1 i b cs sh)
  from "1.prems" obtain c where c: "c \<in> set cs" and x: "x = c \<or> x \<in> set (descendants c)"
    by auto
  from x have "size x \<le> size c"
    using "1.IH"[OF c] by (auto simp del: node.size intro: less_imp_le)
  with size_child[OF c, of i b sh] show ?case by simp
qed

lemma size_querySelectorAll_shadow:
  assumes "x \<in> set (querySelectorAll (nodes sr))"
  shows "size x < size (Node i b cs (Some sr))"
proof -
  from assms obtain c where c: "c \<in> set (nodes sr)" and x: "x = c \<or> x \<in> set (descendants c)"
    by (auto simp: querySelectorAll_def)
  have "size x \<le> size c" using x size_descendants[of x c] by auto
  with size_shadow_child[OF c, of i b cs] show ?thesis by simp
qed

text \<open>
  \<^verbatim>\<open>node.shadowRoot.host\<close> is the node itself, so the observer is registered under
  \<open>i\<close>, and the shadow root is identified by its host.
\<close>

function traverse :: "host \<Rightarrow> node \<Rightarrow> engine \<Rightarrow> engine" where
  "traverse h (Node i b cs sh) e =
     (if b then
        (let e1 = e\<lparr>elements := set_add i (elements e)\<rparr>
         in case sh of
              None \<Rightarrow> e1
            | Some sr \<Rightarrow>
                (let e2 = (if i \<notin> observers e1
                           then e1\<lparr>observers := insert i (observers e1)\<rparr> else e1);
                     e3 = e2\<lparr>shadowRoots := set_add i (shadowRoots e2)\<rparr>;
                     e4 = e3\<lparr>shadowSheets :=
                            fold set_add (filter (sameOrigin h) (styleSheets sr)) (shadowSheets e3)\<rparr>
                 in fold (traverse h) (querySelectorAll (nodes sr)) e4))
      else e)"
  by pat_completeness auto
termination
  by (relation "measure (\<lambda>(h, n, e). size n)")
     (auto simp del: node.size simp: size_querySelectorAll_shadow)

definition isStyleOrMediaRule :: "cssRule \<Rightarrow> bool" where
  "isStyleOrMediaRule r = (case r of CSSStyleRule s t \<Rightarrow> True | CSSMediaRule rs \<Rightarrow> True | CSSOtherRule \<Rightarrow> False)"

definition isStyleRule :: "cssRule \<Rightarrow> bool" where
  "isStyleRule r = (case r of CSSStyleRule s t \<Rightarrow> True | _ \<Rightarrow> False)"

definition styleRulesOf :: "cssRule \<Rightarrow> cssRule list" where
  "styleRulesOf r =
     (case r of
        CSSStyleRule s t \<Rightarrow> [r]
      | CSSMediaRule rs \<Rightarrow> filter isStyleRule rs
      | CSSOtherRule \<Rightarrow> [])"

definition isHoverBorderRule :: "cssRule \<Rightarrow> bool" where
  "isHoverBorderRule r =
     (case r of
        CSSStyleRule selectorText cssText \<Rightarrow> contains selectorText '':hover'' \<and> contains cssText ''border''
      | _ \<Rightarrow> False)"

definition setHoverRule :: "cssRule \<Rightarrow> (string \<times> cssRule) list \<Rightarrow> (string \<times> cssRule) list" where
  "setHoverRule r m = (case r of CSSStyleRule selectorText cssText \<Rightarrow> AList.update selectorText r m | _ \<Rightarrow> m)"

definition getHoverBorderColorRules :: "host \<Rightarrow> engine \<Rightarrow> engine" where
  "getHoverBorderColorRules h e =
     (let sheets = filter (sameOrigin h) (documentStyleSheets h @ shadowSheets e);
          rules = concat (map (\<lambda>s. filter isHoverBorderRule
                     (concat (map styleRulesOf (filter isStyleOrMediaRule (sheetRules s))))) sheets)
      in e\<lparr>hoverColorRules := fold setHoverRule rules (hoverColorRules e)\<rparr>)"

text \<open>\<^verbatim>\<open>(root.shadowRoot || root).querySelectorAll('*')\<close>.\<close>

definition walkScope :: "node \<Rightarrow> node list" where
  "walkScope r = querySelectorAll (case shadowRoot r of Some sr \<Rightarrow> nodes sr | None \<Rightarrow> childNodes r)"

definition walk :: "host \<Rightarrow> config \<Rightarrow> node \<Rightarrow> engine \<Rightarrow> engine" where
  "walk h cfg r e =
     (let e1 = (if isHTMLElement r then e\<lparr>elements := set_add (nid r) (elements e)\<rparr> else e);
          e2 = fold (traverse h) (walkScope r) e1
      in if preserveHoverBorderColor cfg then getHoverBorderColorRules h e2 else e2)"

subsubsection \<open>\<^verbatim>\<open>#darken\<close> and \<^verbatim>\<open>#undarken\<close>\<close>

text \<open>
  The contrast repair loop of \<^verbatim>\<open>#darken\<close>; it returns the three loop variables
  \<^verbatim>\<open>colored\<close>, \<^verbatim>\<open>readable\<close> and \<^verbatim>\<open>readableAttempts\<close>.
\<close>

function repair :: "'c colord \<Rightarrow> string \<Rightarrow> 'c \<Rightarrow> bool \<Rightarrow> nat \<Rightarrow> 'c \<times> bool \<times> nat" where
  "repair L darkBgColor colored readable readableAttempts =
     (if \<not> readable \<and> readableAttempts < 10
      then repair L darkBgColor (c_lighten L colored 0.05)
             (c_isReadable L (c_lighten L colored 0.05) darkBgColor AAA) (readableAttempts + 1)
      else (colored, readable, readableAttempts))"
  by pat_completeness auto
termination
  by (relation "measure (\<lambda>(L, bg, c, r, n). 10 - n)") auto

declare repair.simps [simp del]

definition filtered :: "host \<Rightarrow> config \<Rightarrow> nat \<Rightarrow> bool" where
  "filtered h cfg el = list_ex (\<lambda>selector. matches h el selector) (htmlFilterSet cfg)"

definition isPageRootTag :: "host \<Rightarrow> engine \<Rightarrow> nat \<Rightarrow> bool" where
  "isPageRootTag h e el = (toLowerCase (tagName h el) = toLowerCase (tagName h (nid (pageRoot e))))"

definition darkBackground :: "'c colord \<Rightarrow> host \<Rightarrow> config \<Rightarrow> engine \<Rightarrow> string \<Rightarrow> nat \<Rightarrow> string" where
  "darkBackground L h cfg e bgColor el =
     (let bgColord = colord L bgColor
      in if isPageRootTag h e el
         then c_toHex L (c_setAlpha L (c_darken L bgColord 0.9) (pageRootAlpha cfg))
         else if \<not> c_isDark L bgColord then c_toHex L (c_darken L bgColord 0.9)
         else bgColor)"

definition hoverRule :: "host \<Rightarrow> engine \<Rightarrow> nat \<Rightarrow> (string \<times> cssRule) option" where
  "hoverRule h e el =
     find (\<lambda>(selector, r). matches h el (removeAll '':hover'' selector)) (hoverColorRules e)"

definition themeBorder :: "'c colord \<Rightarrow> host \<Rightarrow> engine \<Rightarrow> nat \<Rightarrow> real \<Rightarrow> 'c \<Rightarrow> element \<Rightarrow> element" where
  "themeBorder L h e el borderColorAlpha colored x =
     (if borderColorAlpha > 0 then
        (if hoverRule h e el = None then
           (let x1 = (if style_borderColor (style x) \<noteq> ''''
                      then x\<lparr>dataset := (dataset x)\<lparr>originalBorderColor := Some (style_borderColor (style x))\<rparr>\<rparr>
                      else x)
            in setProperty ''border-color'' (c_toHex L (c_darken L colored 0.45)) x1)
         else x)
      else x)"

definition recolor :: "'c colord \<Rightarrow> string \<Rightarrow> string" where
  "recolor L match =
     (let c = colord L match
      in if c_isDark L c then c_toHex L (c_lighten L c 0.7) else c_toHex L (c_darken L c 0.7))"

definition themeGradient :: "'c colord \<Rightarrow> computedStyle \<Rightarrow> element \<Rightarrow> element" where
  "themeGradient L computedStyle x =
     (if computed_backgroundImage computedStyle \<noteq> ''none''
         \<and> contains (computed_backgroundImage computedStyle) ''-gradient(''
      then
        (let bgImg = replaceColorValues (recolor L) (computed_backgroundImage computedStyle);
             x1 = (if style_backgroundImage (style x) \<noteq> ''''
                   then x\<lparr>dataset := (dataset x)\<lparr>originalBgImage := Some (style_backgroundImage (style x))\<rparr>\<rparr>
                   else x);
             x2 = setProperty ''background-image'' bgImg x1
         in x2\<lparr>dataset := (dataset x2)\<lparr>lightsOutGradient := Some ''true''\<rparr>\<rparr>)
      else x)"

text \<open>
  The block of \<^verbatim>\<open>#darken\<close> guarded by \<^verbatim>\<open>el.dataset.lightsOut !== 'true'\<close>.
  The object returned by \<^verbatim>\<open>getComputedStyle\<close> is live: its background image is read
  after the snapshot entries and the border colour have been written, so it is taken
  from \<open>liveStyle\<close>, the computed style of the element as written so far. Colour,
  background colour and border colour were read before the first write.
\<close>

definition theme :: "'c colord \<Rightarrow> host \<Rightarrow> engine \<Rightarrow> nat \<Rightarrow> computedStyle \<Rightarrow> (element \<Rightarrow> computedStyle)
    \<Rightarrow> string \<Rightarrow> 'c \<Rightarrow> element \<Rightarrow> element" where
  "theme L h e el computedStyle liveStyle darkBgColor colored x =
     (let originalColor = style_color (style x);
          originalBgColor = style_backgroundColor (style x);
          x1 = (if originalColor \<noteq> ''''
                then x\<lparr>dataset := (dataset x)\<lparr>originalColor := Some originalColor\<rparr>\<rparr> else x);
          x2 = (if originalBgColor \<noteq> ''''
                then x1\<lparr>dataset := (dataset x1)\<lparr>originalBgColor := Some originalBgColor\<rparr>\<rparr> else x1);
          x3 = themeBorder L h e el (c_alpha L (colord L (computed_borderColor computedStyle))) colored x2;
          x4 = themeGradient L (liveStyle x3) x3;
          x5 = setProperty ''color'' (c_toHex L colored) x4;
          x6 = setProperty ''background-color'' darkBgColor x5
      in x6\<lparr>dataset := (dataset x6)\<lparr>lightsOut := Some ''true''\<rparr>\<rparr>)"

definition darken :: "'c colord \<Rightarrow> host \<Rightarrow> config \<Rightarrow> nat \<Rightarrow> engine \<times> dom \<Rightarrow> engine \<times> dom" where
  "darken L h cfg el st =
     (case st of (e, d) \<Rightarrow>
       (let computedStyle = getComputedStyle h d el;
            bgColor = computed_backgroundColor computedStyle
        in if \<not> filtered h cfg el then
             (let darkBgColor = darkBackground L h cfg e bgColor el;
                  e1 = (if isPageRootTag h e el \<and> backgroundColor e = ''''
                        then e\<lparr>backgroundColor := darkBgColor\<rparr> else e);
                  colored0 = colord L (computed_color computedStyle);
                  colored = fst (repair L darkBgColor colored0 (c_isReadable L colored0 darkBgColor AA) 0)
              in if lightsOut (dataset (elems d el)) \<noteq> Some ''true''
                 then (e1, d\<lparr>elems := (elems d)(el :=
                         theme L h e1 el computedStyle
                           (\<lambda>x. getComputedStyle h (d\<lparr>elems := (elems d)(el := x)\<rparr>) el)
                           darkBgColor colored (elems d el))\<rparr>)
                 else (e1, d))
           else (e, d)))"

definition undarken :: "nat \<Rightarrow> dom \<Rightarrow> dom" where
  "undarken el d =
     (let x = elems d el
      in if lightsOut (dataset x) = Some ''true'' then
           (let x1 = x\<lparr>dataset := (dataset x)\<lparr>lightsOut := None\<rparr>\<rparr>;
                x2 = (if truthy (originalColor (dataset x1))
                      then (setProperty ''color'' (the (originalColor (dataset x1))) x1)
                             \<lparr>dataset := (dataset x1)\<lparr>originalColor := None\<rparr>\<rparr>
                      else removeProperty ''color'' x1);
                x3 = (if truthy (originalBgColor (dataset x2))
                      then (setProperty ''background-color'' (the (originalBgColor (dataset x2))) x2)
                             \<lparr>dataset := (dataset x2)\<lparr>originalBgColor := None\<rparr>\<rparr>
                      else removeProperty ''background-color'' x2);
                x4 = (if truthy (originalBorderColor (dataset x3))
                      then (setProperty ''border-color'' (the (originalBorderColor (dataset x3))) x3)
                             \<lparr>dataset := (dataset x3)\<lparr>originalBorderColor := None\<rparr>\<rparr>
                      else removeProperty ''border-color'' x3);
                x5 = (if truthy (lightsOutGradient (dataset x4)) then
                        (let y = x4\<lparr>dataset := (dataset x4)\<lparr>lightsOutGradient := None\<rparr>\<rparr>
                         in if truthy (originalBgImage (dataset y))
                            then (setProperty ''background-image'' (the (originalBgImage (dataset y))) y)
                                   \<lparr>dataset := (dataset y)\<lparr>originalBgImage := None\<rparr>\<rparr>
                            else removeProperty ''background-image'' y)
                      else x4)
            in d\<lparr>elems := (elems d)(el := x5)\<rparr>)
         else d)"

subsubsection \<open>\<^verbatim>\<open>#clear\<close>, \<^verbatim>\<open>#update\<close>, \<^verbatim>\<open>enable\<close>, \<^verbatim>\<open>disable\<close>, \<^verbatim>\<open>toggle\<close>\<close>

definition clear :: "host \<Rightarrow> engine \<Rightarrow> engine" where
  "clear h e =
     e\<lparr>elements := [], shadowRoots := [], shadowSheets := [], hoverColorRules := [],
       observers := Set.filter (isConnected h) (observers e)\<rparr>"

definition adoptSheet :: "nat \<Rightarrow> dom \<Rightarrow> dom" where
  "adoptSheet sr d = d\<lparr>shadowAdopted := (shadowAdopted d)(sr := shadowAdopted d sr @ [EngineSheet])\<rparr>"

definition update :: "'c colord \<Rightarrow> host \<Rightarrow> config \<Rightarrow> node \<Rightarrow> engine \<times> dom \<Rightarrow> engine \<times> dom" where
  "update L h cfg r st =
     (case st of (e, d) \<Rightarrow>
       (let e1 = clear h e;
            e2 = walk h cfg r e1;
            st3 = fold (darken L h cfg) (elements e2) (e2, d)
        in (fst st3, fold adoptSheet (shadowRoots (fst st3)) (snd st3))))"

definition enable :: "'c colord \<Rightarrow> host \<Rightarrow> config \<Rightarrow> engine \<times> dom \<Rightarrow> engine \<times> dom" where
  "enable L h cfg st =
     (case st of (e, d) \<Rightarrow>
       (let e1 = e\<lparr>isEnabled := True\<rparr>;
            e2 = e1\<lparr>pageObserved := insert (nid (pageRoot e1)) (pageObserved e1)\<rparr>;
            d1 = d\<lparr>sheetText := cssRules cfg\<rparr>;
            d2 = d1\<lparr>documentAdopted := documentAdopted d1 @ [EngineSheet]\<rparr>
        in update L h cfg (pageRoot e2) (e2, d2)))"

definition disable :: "host \<Rightarrow> config \<Rightarrow> engine \<times> dom \<Rightarrow> engine \<times> dom" where
  "disable h cfg st =
     (case st of (e, d) \<Rightarrow>
       (let e1 = e\<lparr>isEnabled := False\<rparr>;
            e2 = walk h cfg (pageRoot e1) e1;
            d1 = d\<lparr>sheetText := ''''\<rparr>;
            e3 = e2\<lparr>backgroundColor := ''''\<rparr>;
            d2 = fold undarken (elements e3) d1;
            e4 = e3\<lparr>pageObserved := {}\<rparr>;
            e5 = e4\<lparr>observers := {}\<rparr>
        in (clear h e5, d2)))"

definition toggle :: "'c colord \<Rightarrow> host \<Rightarrow> config \<Rightarrow> bool option \<Rightarrow> engine \<times> dom \<Rightarrow> engine \<times> dom" where
  "toggle L h cfg force st =
     (let f = (case force of None \<Rightarrow> \<not> isEnabled (fst st) | Some b \<Rightarrow> b)
      in if f then enable L h cfg st else disable h cfg st)"

subsection \<open>What a traversal reaches\<close>

text \<open>
  Three functions of the tree alone, used to state what \<^verbatim>\<open>#traverse\<close> does:
  the elements one call inserts into \<^verbatim>\<open>#elements\<close>, the shadow hosts it registers
  an observer for, and all elements below a node, shadow trees included.
\<close>

function inserted :: "node \<Rightarrow> nat set" where
  "inserted (Node i b cs sh) =
     (if b then
        insert i (case sh of
                    None \<Rightarrow> {}
                  | Some sr \<Rightarrow> \<Union> (set (map inserted (querySelectorAll (nodes sr)))))
      else {})"
  by pat_completeness auto
termination
  by (relation "measure size") (auto simp del: node.size simp: size_querySelectorAll_shadow)

function shadowHosts :: "node \<Rightarrow> nat set" where
  "shadowHosts (Node i b cs sh) =
     (if b then
        (case sh of
           None \<Rightarrow> {}
         | Some sr \<Rightarrow> insert i (\<Union> (set (map shadowHosts (querySelectorAll (nodes sr))))))
      else {})"
  by pat_completeness auto
termination
  by (relation "measure size") (auto simp del: node.size simp: size_querySelectorAll_shadow)

function allNodes :: "node \<Rightarrow> node list" where
  "allNodes (Node i b cs sh) =
     Node i b cs sh # concat (map allNodes cs)
       @ (case sh of None \<Rightarrow> [] | Some sr \<Rightarrow> concat (map allNodes (nodes sr)))"
  by pat_completeness auto
termination
  by (relation "measure size") (auto simp del: node.size simp: size_child size_shadow_child)

text \<open>What \<^verbatim>\<open>#walk\<close> inserts and registers for a root.\<close>

definition walkInserted :: "node \<Rightarrow> nat set" where
  "walkInserted r =
     (if isHTMLElement r then {nid r} else {}) \<union> \<Union> (set (map inserted (walkScope r)))"

definition walkHosts :: "node \<Rightarrow> nat set" where
  "walkHosts r = \<Union> (set (map shadowHosts (walkScope r)))"

text \<open>The fields no traversal writes.\<close>

definition untraversed :: "engine \<Rightarrow> bool \<times> node \<times> nat set \<times> string \<times> (string \<times> cssRule) list" where
  "untraversed e = (isEnabled e, pageRoot e, pageObserved e, backgroundColor e, hoverColorRules e)"

subsection \<open>An example colour library and host\<close>

text \<open>
  The theorems below hold for every colour library and every host. To evaluate the
  definitions on concrete inputs, this is one library, on opaque or translucent gray
  tones only, and one host. A gray is its channel value in quarters (0 to 1020, so that
  the amounts 0.05, 0.45, 0.7 and 0.9 of the lightness scale are whole numbers) and its
  alpha. Lightening and darkening move the lightness and clamp it, \<open>g_toHex\<close> rounds the
  channel and appends the alpha byte when alpha is below 1, a gray is dark when its
  brightness is below one half, and the contrast ratio is taken with the relative
  luminance approximated by the square of the channel fraction (thresholds 4.5 and 7).
\<close>

record gray =
  quarters :: nat
  g_alpha :: real

definition digitVal :: "char \<Rightarrow> nat" where
  "digitVal c =
     (case map_of (zip ''0123456789abcdef'' [0, 1, 2, 3, 4, 5, 6, 7, 8, 9, 10, 11, 12, 13, 14, 15])
             (lowerChar c) of
        Some n \<Rightarrow> n
      | None \<Rightarrow> 0)"

definition decimal :: "string \<Rightarrow> nat" where
  "decimal s = foldl (\<lambda>n c. 10 * n + digitVal c) 0 (filter isDigit s)"

definition number :: "string \<Rightarrow> real" where
  "number s =
     (let whole = takeWhile (\<lambda>c. c \<noteq> CHR ''.'') s;
          frac = filter isDigit (drop (length whole + 1) s)
      in real (decimal whole) + real (decimal frac) / 10 ^ length frac)"

fun splitOn :: "char \<Rightarrow> string \<Rightarrow> string list" where
  "splitOn sep [] = [[]]"
| "splitOn sep (c # cs) =
     (case splitOn sep cs of
        [] \<Rightarrow> [[c]]
      | w # ws \<Rightarrow> if c = sep then [] # w # ws else (c # w) # ws)"

definition hexChannel :: "string \<Rightarrow> nat" where
  "hexChannel s = (case s of a # b # r \<Rightarrow> 16 * digitVal a + digitVal b | _ \<Rightarrow> 0)"

definition g_parse :: "string \<Rightarrow> gray" where
  "g_parse s =
     (if startsWith s ''#'' then
        (let ds = drop 1 s
         in \<lparr>quarters = 4 * hexChannel ds,
             g_alpha = (if length ds = 8 then real (hexChannel (drop 6 ds)) / 255 else 1)\<rparr>)
      else if startsWith s ''rgb'' then
        (let args = splitOn CHR '','' (takeWhile (\<lambda>c. c \<noteq> CHR '')'') (drop 1 (dropWhile (\<lambda>c. c \<noteq> CHR ''('') s)))
         in \<lparr>quarters = 4 * decimal (takeWhile (\<lambda>c. c \<noteq> CHR ''.'') (hd (args @ [[]]))),
             g_alpha = (if length args = 4 then number (args ! 3) else 1)\<rparr>)
      else \<lparr>quarters = 0, g_alpha = 1\<rparr>)"

definition g_darken :: "gray \<Rightarrow> real \<Rightarrow> gray" where
  "g_darken c amount = c\<lparr>quarters := quarters c - nat \<lfloor>amount * 1020\<rfloor>\<rparr>"

definition g_lighten :: "gray \<Rightarrow> real \<Rightarrow> gray" where
  "g_lighten c amount = c\<lparr>quarters := min 1020 (quarters c + nat \<lfloor>amount * 1020\<rfloor>)\<rparr>"

definition hexByte :: "nat \<Rightarrow> string" where
  "hexByte n = [''0123456789abcdef'' ! ((n div 16) mod 16), ''0123456789abcdef'' ! (n mod 16)]"

definition g_toHex :: "gray \<Rightarrow> string" where
  "g_toHex c =
     (let v = hexByte ((quarters c + 2) div 4)
      in CHR ''#'' # v @ v @ v @ (if g_alpha c < 1 then hexByte (nat \<lfloor>g_alpha c * 255 + 1 / 2\<rfloor>) else []))"

definition g_isDark :: "gray \<Rightarrow> bool" where
  "g_isDark c = (quarters c < 510)"

definition g_isReadable :: "gray \<Rightarrow> string \<Rightarrow> level \<Rightarrow> bool" where
  "g_isReadable c bg lvl =
     (let p = (quarters c)\<^sup>2 + 52020;
          q = (quarters (g_parse bg))\<^sup>2 + 52020;
          hi = max p q;
          lo = min p q
      in case lvl of AA \<Rightarrow> 9 * lo \<le> 2 * hi | AAA \<Rightarrow> 7 * lo \<le> hi)"

definition grays :: "gray colord" where
  "grays =
     \<lparr>colord = g_parse, c_darken = g_darken, c_lighten = g_lighten, c_alpha = g_alpha,
      c_setAlpha = (\<lambda>c a. c\<lparr>g_alpha := a\<rparr>), c_isDark = g_isDark, c_isReadable = g_isReadable,
      c_toHex = g_toHex\<rparr>"

text \<open>
  The example host: tag names and the selectors an element matches are given by tables,
  an element is connected unless it is listed as detached, and the computed style of an
  element is its inline declaration where it has one (\<^verbatim>\<open>transparent\<close> computes to
  \<^verbatim>\<open>rgba(0, 0, 0, 0)\<close>), otherwise black text on a transparent background with a border
  in the text colour and no background image.
\<close>

definition computedValue :: "string \<Rightarrow> string \<Rightarrow> string" where
  "computedValue declared initial =
     (if declared = '''' then initial
      else if declared = ''transparent'' then ''rgba(0, 0, 0, 0)''
      else declared)"

definition exampleComputedStyle :: "dom \<Rightarrow> nat \<Rightarrow> computedStyle" where
  "exampleComputedStyle d el =
     (let s = style (elems d el);
          c = computedValue (style_color s) ''rgb(0, 0, 0)''
      in \<lparr>computed_color = c,
          computed_backgroundColor = computedValue (style_backgroundColor s) ''rgba(0, 0, 0, 0)'',
          computed_borderColor = computedValue (style_borderColor s) c,
          computed_backgroundImage = computedValue (style_backgroundImage s) ''none''\<rparr>)"

definition exampleHost :: "(nat \<times> string) list \<Rightarrow> (nat \<times> string) list \<Rightarrow> nat list \<Rightarrow> sheet list \<Rightarrow> host" where
  "exampleHost tags selectors detached sheets =
     \<lparr>tagName = (\<lambda>el. case map_of tags el of Some t \<Rightarrow> t | None \<Rightarrow> ''DIV''),
      matches = (\<lambda>el selector. (el, selector) \<in> set selectors),
      isConnected = (\<lambda>el. el \<notin> set detached),
      getComputedStyle = exampleComputedStyle,
      documentStyleSheets = sheets,
      origin = ''https://example.org''\<rparr>"

definition plainElement :: element where
  "plainElement =
     \<lparr>style = \<lparr>style_color = '''', style_backgroundColor = '''', style_borderColor = '''',
                style_backgroundImage = ''''\<rparr>,
      dataset = \<lparr>lightsOut = None, lightsOutGradient = None, originalColor = None,
                  originalBgColor = None, originalBorderColor = None, originalBgImage = None\<rparr>\<rparr>"

definition exampleDom :: "(nat \<times> element) list \<Rightarrow> dom" where
  "exampleDom els =
     \<lparr>elems = (\<lambda>el. case map_of els el of Some x \<Rightarrow> x | None \<Rightarrow> plainElement),
      sheetText = '''', documentAdopted = [], shadowAdopted = (\<lambda>sr. [])\<rparr>"

definition exampleConfig :: config where
  "exampleConfig =
     \<lparr>verbose = False, pageRootAlpha = 1, preserveHoverBorderColor = False,
      htmlFilterSet = new_htmlFilterSet None, cssRules = ''* { scrollbar-color: #333 #555 !important; }''\<rparr>"

text \<open>
  Example documents. Page A: \<^verbatim>\<open>body\<close> (1) holding a \<^verbatim>\<open>div\<close> (2) with inline colour,
  background and a transparent border, a \<^verbatim>\<open>script\<close> (3), an \<^verbatim>\<open>svg\<close> element (4), a
  custom element (5) whose shadow root holds a \<^verbatim>\<open>span\<close> (6), and a \<^verbatim>\<open>button\<close> (7) of
  class \<^verbatim>\<open>btn\<close> with a red inline border; the document's style sheet has a hover rule
  for the border of \<^verbatim>\<open>.btn\<close>. Page B: a \<^verbatim>\<open>div\<close> (1) used as theming root, holding a
  \<^verbatim>\<open>div\<close> (2) and a \<^verbatim>\<open>span\<close> (3) that both have the same dark inline background.
\<close>

definition pageA :: node where
  "pageA =
     Node 1 True
       [Node 2 True [] None,
        Node 3 True [] None,
        Node 4 False [] None,
        Node 5 True [] (Some (ShadowRoot [] [Node 6 True [] None])),
        Node 7 True [] None]
       None"

definition sheetA :: sheet where
  "sheetA =
     \<lparr>sheetId = 1, href = None,
      sheetRules = [CSSStyleRule ''.btn:hover'' ''.btn:hover { border-color: blue; }'']\<rparr>"

definition hostA :: "nat list \<Rightarrow> host" where
  "hostA detached =
     exampleHost
       [(1, ''BODY''), (2, ''DIV''), (3, ''SCRIPT''), (4, ''svg''), (5, ''X-WIDGET''), (6, ''SPAN''),
        (7, ''BUTTON'')]
       [(1, ''body''), (2, ''div''), (3, ''script''), (4, ''svg''), (5, ''x-widget''), (6, ''span''),
        (7, ''button''), (7, ''.btn'')]
       detached [sheetA]"

definition domA :: dom where
  "domA =
     exampleDom
       [(2, plainElement\<lparr>style := \<lparr>style_color = ''rgb(0, 0, 0)'',
               style_backgroundColor = ''rgb(255, 255, 255)'', style_borderColor = ''transparent'',
               style_backgroundImage = ''''\<rparr>\<rparr>),
        (7, plainElement\<lparr>style := \<lparr>style_color = '''', style_backgroundColor = '''',
               style_borderColor = ''rgb(255, 0, 0)'', style_backgroundImage = ''''\<rparr>\<rparr>)]"

definition pageB :: node where
  "pageB = Node 1 True [Node 2 True [] None, Node 3 True [] None] None"

definition hostB :: host where
  "hostB = exampleHost [(1, ''DIV''), (2, ''DIV''), (3, ''SPAN'')] [(1, ''div''), (2, ''div''), (3, ''span'')] [] []"

definition domB :: dom where
  "domB =
     exampleDom
       [(2, plainElement\<lparr>style := \<lparr>style_color = '''', style_backgroundColor = ''rgb(40, 40, 40)'',
               style_borderColor = '''', style_backgroundImage = ''''\<rparr>\<rparr>),
        (3, plainElement\<lparr>style := \<lparr>style_color = '''', style_backgroundColor = ''rgb(40, 40, 40)'',
               style_borderColor = '''', style_backgroundImage = ''''\<rparr>\<rparr>)]"

section \<open>Properties\<close>

subsection \<open>The pageRoot setter\<close>

text \<open>
  C9. Assigning a value that is not an HTMLElement to \<^verbatim>\<open>pageRoot\<close> throws the error
  at once: the call returns the error, and every field of the engine, the theming root
  and the target of the page observer among them, is as it was before the call.
\<close>

theorem pageRoot_setter_rejects_non_element:
  assumes "\<not> instanceofHTMLElement v"
  shows "set_pageRoot v e = (Some (Error ''pageRoot must be an instance of HTMLElement''), e)"
  using assms by (cases v) (simp_all add: set_pageRoot_def instanceofHTMLElement_def)

theorem pageRoot_setter_rejects_non_element_witness:
  "\<not> instanceofHTMLElement (ElementValue (Node 7 False [] None))
   \<and> set_pageRoot (ElementValue (Node 7 False [] None))
        ((new_engine (Node 1 True [] None))\<lparr>isEnabled := True, pageObserved := {1}\<rparr>)
      = (Some (Error ''pageRoot must be an instance of HTMLElement''),
         (new_engine (Node 1 True [] None))\<lparr>isEnabled := True, pageObserved := {1}\<rparr>)"
  using pageRoot_setter_rejects_non_element
          [of "ElementValue (Node 7 False [] None)"
              "(new_engine (Node 1 True [] None))\<lparr>isEnabled := True, pageObserved := {1}\<rparr>"]
  by (simp add: instanceofHTMLElement_def)

subsection \<open>The contrast repair loop\<close>

lemma repair_exit:
  assumes "repair L bg c r n = (c', r', n')" and "n \<le> 10"
  shows "n \<le> n' \<and> n' \<le> 10 \<and> (r' \<or> n' = 10)
         \<and> (if n' = n then c' = c \<and> r' = r else r' = c_isReadable L c' bg AAA)"
  using assms
proof (induction L bg c r n rule: repair.induct)
  case (1 L bg c r n)
  show ?case
  proof (cases "\<not> r \<and> n < 10")
    case True
    then have step: "repair L bg (c_lighten L c 0.05)
        (c_isReadable L (c_lighten L c 0.05) bg AAA) (n + 1) = (c', r', n')"
      using "1.prems"(1) by (subst (asm) repair.simps) simp
    from True have "n + 1 \<le> 10" by simp
    from "1.IH"[OF True step this] show ?thesis
      by (auto split: if_splits)
  next
    case False
    then have "(c', r', n') = (c, r, n)"
      using "1.prems"(1) by (subst (asm) repair.simps) auto
    with False "1.prems"(2) show ?thesis by auto
  qed
qed

text \<open>
  C2, as amended. The loop makes at most 10 lightening steps. On exit, either no step
  was made because the starting colour already passed the entry test, which is the
  default level AA and not AAA, and the colour is the starting colour; or the resulting
  colour is AAA-readable against the target background; or exactly 10 steps were made.
\<close>

theorem repair_bound_and_exit:
  "(case repair L darkBgColor colored (c_isReadable L colored darkBgColor AA) 0 of
      (colored', readable', readableAttempts') \<Rightarrow>
        readableAttempts' \<le> 10
        \<and> ((c_isReadable L colored darkBgColor AA \<and> readableAttempts' = 0 \<and> colored' = colored)
           \<or> c_isReadable L colored' darkBgColor AAA
           \<or> readableAttempts' = 10))"
proof -
  obtain c' r' n' where res:
    "repair L darkBgColor colored (c_isReadable L colored darkBgColor AA) 0 = (c', r', n')"
    by (metis prod_cases3)
  from repair_exit[OF res] show ?thesis
    unfolding res by (auto split: if_splits)
qed

lemma grays_parse_100: "colord grays ''rgb(100, 100, 100)'' = \<lparr>quarters = 400, g_alpha = 1\<rparr>"
  by (simp add: grays_def g_parse_def startsWith_def decimal_def digitVal_def lowerChar_def isDigit_def)

lemma grays_parse_136: "colord grays ''rgb(136, 136, 136)'' = \<lparr>quarters = 544, g_alpha = 1\<rparr>"
  by (simp add: grays_def g_parse_def startsWith_def decimal_def digitVal_def lowerChar_def isDigit_def)

lemma grays_parse_black: "g_parse ''#000000'' = \<lparr>quarters = 0, g_alpha = 1\<rparr>"
  by (simp add: g_parse_def startsWith_def hexChannel_def digitVal_def lowerChar_def)

lemma grays_readable:
  "c_isReadable grays c ''#000000'' AA = (468180 \<le> 2 * ((quarters c)\<^sup>2 + 52020))"
  "c_isReadable grays c ''#000000'' AAA = (364140 \<le> (quarters c)\<^sup>2 + 52020)"
  by (simp_all add: grays_def g_isReadable_def grays_parse_black Let_def max_def min_def)

lemma grays_lighten: "c_lighten grays c (1 / 20) = c\<lparr>quarters := min 1020 (quarters c + 51)\<rparr>"
  by (simp add: grays_def g_lighten_def)

lemma repair_grays_100:
  "repair grays ''#000000'' (colord grays ''rgb(100, 100, 100)'')
     (c_isReadable grays (colord grays ''rgb(100, 100, 100)'') ''#000000'' AA) 0
   = (\<lparr>quarters = 604, g_alpha = 1\<rparr>, True, 4)"
  by (simp add: grays_parse_100 repair.simps grays_readable grays_lighten)

lemma repair_grays_136:
  "repair grays ''#000000'' (colord grays ''rgb(136, 136, 136)'')
     (c_isReadable grays (colord grays ''rgb(136, 136, 136)'') ''#000000'' AA) 0
   = (\<lparr>quarters = 544, g_alpha = 1\<rparr>, True, 0)"
  by (simp add: grays_parse_136 repair.simps grays_readable)

theorem repair_bound_and_exit_witness:
  "(case repair grays ''#000000'' (colord grays ''rgb(100, 100, 100)'')
           (c_isReadable grays (colord grays ''rgb(100, 100, 100)'') ''#000000'' AA) 0 of
      (colored', readable', readableAttempts') \<Rightarrow>
        readableAttempts' \<le> 10
        \<and> ((c_isReadable grays (colord grays ''rgb(100, 100, 100)'') ''#000000'' AA
             \<and> readableAttempts' = 0 \<and> colored' = colord grays ''rgb(100, 100, 100)'')
           \<or> c_isReadable grays colored' ''#000000'' AAA
           \<or> readableAttempts' = 10))
   \<and> snd (snd (repair grays ''#000000'' (colord grays ''rgb(100, 100, 100)'')
           (c_isReadable grays (colord grays ''rgb(100, 100, 100)'') ''#000000'' AA) 0)) = 4"
  using repair_bound_and_exit[where L = grays and darkBgColor = "''#000000''"
          and colored = "colord grays ''rgb(100, 100, 100)''"]
  unfolding repair_grays_100 by simp

text \<open>
  The claim as stated fails for a colour that is AA-readable but not AAA-readable:
  gray \<^verbatim>\<open>rgb(136, 136, 136)\<close> on black passes the entry test, so the loop body never
  runs; the result is not AAA-readable and zero steps were made, not 10.
\<close>

theorem repair_exit_AAA_or_ten_counterexample:
  "\<not> (case repair grays ''#000000'' (colord grays ''rgb(136, 136, 136)'')
           (c_isReadable grays (colord grays ''rgb(136, 136, 136)'') ''#000000'' AA) 0 of
        (colored', readable', readableAttempts') \<Rightarrow>
          c_isReadable grays colored' ''#000000'' AAA \<or> readableAttempts' = 10)"
  unfolding repair_grays_136 by (simp add: grays_readable)

subsection \<open>Facts about \<^verbatim>\<open>#darken\<close> and \<^verbatim>\<open>#undarken\<close>\<close>

lemma setProperty_simps:
  "setProperty ''color'' v x = x\<lparr>style := (style x)\<lparr>style_color := v\<rparr>\<rparr>"
  "setProperty ''background-color'' v x = x\<lparr>style := (style x)\<lparr>style_backgroundColor := v\<rparr>\<rparr>"
  "setProperty ''border-color'' v x = x\<lparr>style := (style x)\<lparr>style_borderColor := v\<rparr>\<rparr>"
  "setProperty ''background-image'' v x = x\<lparr>style := (style x)\<lparr>style_backgroundImage := v\<rparr>\<rparr>"
  by (simp_all add: setProperty_def)

lemma removeProperty_simps:
  "removeProperty ''color'' x = x\<lparr>style := (style x)\<lparr>style_color := ''''\<rparr>\<rparr>"
  "removeProperty ''background-color'' x = x\<lparr>style := (style x)\<lparr>style_backgroundColor := ''''\<rparr>\<rparr>"
  "removeProperty ''border-color'' x = x\<lparr>style := (style x)\<lparr>style_borderColor := ''''\<rparr>\<rparr>"
  "removeProperty ''background-image'' x = x\<lparr>style := (style x)\<lparr>style_backgroundImage := ''''\<rparr>\<rparr>"
  by (simp_all add: removeProperty_def setProperty_simps)

lemma themeBorder_style:
  "style_color (style (themeBorder L h e el a c x)) = style_color (style x)"
  "style_backgroundColor (style (themeBorder L h e el a c x)) = style_backgroundColor (style x)"
  "style_backgroundImage (style (themeBorder L h e el a c x)) = style_backgroundImage (style x)"
  "style_borderColor (style (themeBorder L h e el a c x)) =
     (if a > 0 \<and> hoverRule h e el = None then c_toHex L (c_darken L c 0.45)
      else style_borderColor (style x))"
  by (simp_all add: themeBorder_def setProperty_simps Let_def)

lemma themeBorder_dataset:
  "lightsOut (dataset (themeBorder L h e el a c x)) = lightsOut (dataset x)"
  "lightsOutGradient (dataset (themeBorder L h e el a c x)) = lightsOutGradient (dataset x)"
  "originalColor (dataset (themeBorder L h e el a c x)) = originalColor (dataset x)"
  "originalBgColor (dataset (themeBorder L h e el a c x)) = originalBgColor (dataset x)"
  "originalBgImage (dataset (themeBorder L h e el a c x)) = originalBgImage (dataset x)"
  "originalBorderColor (dataset (themeBorder L h e el a c x)) =
     (if a > 0 \<and> hoverRule h e el = None \<and> style_borderColor (style x) \<noteq> ''''
      then Some (style_borderColor (style x)) else originalBorderColor (dataset x))"
  by (simp_all add: themeBorder_def setProperty_simps Let_def)

lemma themeGradient_style:
  "style_color (style (themeGradient L cs x)) = style_color (style x)"
  "style_backgroundColor (style (themeGradient L cs x)) = style_backgroundColor (style x)"
  "style_borderColor (style (themeGradient L cs x)) = style_borderColor (style x)"
  by (simp_all add: themeGradient_def setProperty_simps Let_def)

lemma themeGradient_dataset:
  "lightsOut (dataset (themeGradient L cs x)) = lightsOut (dataset x)"
  "originalColor (dataset (themeGradient L cs x)) = originalColor (dataset x)"
  "originalBgColor (dataset (themeGradient L cs x)) = originalBgColor (dataset x)"
  "originalBorderColor (dataset (themeGradient L cs x)) = originalBorderColor (dataset x)"
  by (simp_all add: themeGradient_def setProperty_simps Let_def)

lemma theme_style:
  "style_color (style (theme L h e el cs live bg c x)) = c_toHex L c"
  "style_backgroundColor (style (theme L h e el cs live bg c x)) = bg"
  "style_borderColor (style (theme L h e el cs live bg c x)) =
     (if c_alpha L (colord L (computed_borderColor cs)) > 0 \<and> hoverRule h e el = None
      then c_toHex L (c_darken L c 0.45) else style_borderColor (style x))"
  by (simp_all add: theme_def setProperty_simps Let_def themeGradient_style themeBorder_style)

lemma theme_dataset:
  "lightsOut (dataset (theme L h e el cs live bg c x)) = Some ''true''"
  "originalColor (dataset (theme L h e el cs live bg c x)) =
     (if style_color (style x) \<noteq> '''' then Some (style_color (style x)) else originalColor (dataset x))"
  "originalBgColor (dataset (theme L h e el cs live bg c x)) =
     (if style_backgroundColor (style x) \<noteq> '''' then Some (style_backgroundColor (style x))
      else originalBgColor (dataset x))"
  "originalBorderColor (dataset (theme L h e el cs live bg c x)) =
     (if c_alpha L (colord L (computed_borderColor cs)) > 0 \<and> hoverRule h e el = None
         \<and> style_borderColor (style x) \<noteq> ''''
      then Some (style_borderColor (style x)) else originalBorderColor (dataset x))"
  by (simp_all add: theme_def setProperty_simps Let_def themeGradient_dataset themeBorder_dataset
      themeGradient_style themeBorder_style)

lemma darken_filtered: "filtered h cfg el \<Longrightarrow> darken L h cfg el st = st"
  by (cases st) (simp add: darken_def)

lemma darken_marked:
  "lightsOut (dataset (elems (snd st) el)) = Some ''true'' \<Longrightarrow> snd (darken L h cfg el st) = snd st"
  by (cases st) (simp add: darken_def Let_def)

lemma darken_sets_marker:
  "\<not> filtered h cfg el \<Longrightarrow> lightsOut (dataset (elems (snd (darken L h cfg el st)) el)) = Some ''true''"
  by (cases st) (simp add: darken_def Let_def theme_dataset)

lemma darken_other: "x \<noteq> el \<Longrightarrow> elems (snd (darken L h cfg el st)) x = elems (snd st) x"
  by (cases st) (simp add: darken_def Let_def)

lemma darken_dom_frame:
  "sheetText (snd (darken L h cfg el st)) = sheetText (snd st)"
  "documentAdopted (snd (darken L h cfg el st)) = documentAdopted (snd st)"
  "shadowAdopted (snd (darken L h cfg el st)) = shadowAdopted (snd st)"
  by (cases st; simp add: darken_def Let_def)+

lemma darken_engine_frame:
  "fst (darken L h cfg el st) = (fst st)\<lparr>backgroundColor := backgroundColor (fst (darken L h cfg el st))\<rparr>"
  by (cases st) (simp add: darken_def Let_def)

text \<open>What \<^verbatim>\<open>#darken\<close> writes to an element it themes.\<close>

lemma darken_themes:
  assumes "\<not> filtered h cfg el" and "lightsOut (dataset (elems d el)) \<noteq> Some ''true''"
  shows "elems (snd (darken L h cfg el (e, d))) el =
     theme L h (fst (darken L h cfg el (e, d))) el (getComputedStyle h d el)
       (\<lambda>x. getComputedStyle h (d\<lparr>elems := (elems d)(el := x)\<rparr>) el)
       (darkBackground L h cfg e (computed_backgroundColor (getComputedStyle h d el)) el)
       (fst (repair L (darkBackground L h cfg e (computed_backgroundColor (getComputedStyle h d el)) el)
          (colord L (computed_color (getComputedStyle h d el)))
          (c_isReadable L (colord L (computed_color (getComputedStyle h d el)))
             (darkBackground L h cfg e (computed_backgroundColor (getComputedStyle h d el)) el) AA) 0))
       (elems d el)"
  using assms by (simp add: darken_def Let_def)

lemma hoverRule_backgroundColor [simp]: "hoverRule h (e\<lparr>backgroundColor := b\<rparr>) el = hoverRule h e el"
  by (simp add: hoverRule_def)

lemma darken_hoverRule [simp]: "hoverRule h (fst (darken L h cfg el (e, d))) el = hoverRule h e el"
  by (simp add: darken_def Let_def)

lemma undarken_unmarked:
  "lightsOut (dataset (elems d el)) \<noteq> Some ''true'' \<Longrightarrow> undarken el d = d"
  by (simp add: undarken_def Let_def)

lemma undarken_other: "x \<noteq> el \<Longrightarrow> elems (undarken el d) x = elems d x"
  by (simp add: undarken_def Let_def)

lemma undarken_clears_marker: "lightsOut (dataset (elems (undarken el d) el)) \<noteq> Some ''true''"
  by (simp add: undarken_def Let_def setProperty_simps removeProperty_simps)

lemma undarken_style:
  assumes "lightsOut (dataset (elems d el)) = Some ''true''"
  shows "style_color (style (elems (undarken el d) el)) =
           (if truthy (originalColor (dataset (elems d el)))
            then the (originalColor (dataset (elems d el))) else '''')"
    and "style_backgroundColor (style (elems (undarken el d) el)) =
           (if truthy (originalBgColor (dataset (elems d el)))
            then the (originalBgColor (dataset (elems d el))) else '''')"
    and "style_borderColor (style (elems (undarken el d) el)) =
           (if truthy (originalBorderColor (dataset (elems d el)))
            then the (originalBorderColor (dataset (elems d el))) else '''')"
  using assms by (simp_all add: undarken_def Let_def setProperty_simps removeProperty_simps)

text \<open>
  A restore after theming, for an element that was neither excluded nor marked and had
  no snapshot entries: colour and background come back as they were; the border comes
  back only if \<^verbatim>\<open>#darken\<close> overwrote it, and is cleared otherwise.
\<close>

lemma undarken_darken_style:
  assumes nf: "\<not> filtered h cfg el"
    and nm: "lightsOut (dataset (elems d el)) \<noteq> Some ''true''"
    and clean: "originalColor (dataset (elems d el)) = None"
      "originalBgColor (dataset (elems d el)) = None"
      "originalBorderColor (dataset (elems d el)) = None"
  shows "style_color (style (elems (undarken el (snd (darken L h cfg el (e, d)))) el))
           = style_color (style (elems d el))"
    and "style_backgroundColor (style (elems (undarken el (snd (darken L h cfg el (e, d)))) el))
           = style_backgroundColor (style (elems d el))"
    and "style_borderColor (style (elems (undarken el (snd (darken L h cfg el (e, d)))) el))
           = (if c_alpha L (colord L (computed_borderColor (getComputedStyle h d el))) > 0
                 \<and> hoverRule h e el = None
              then style_borderColor (style (elems d el)) else '''')"
proof -
  have m: "lightsOut (dataset (elems (snd (darken L h cfg el (e, d))) el)) = Some ''true''"
    by (rule darken_sets_marker[OF nf])
  show "style_color (style (elems (undarken el (snd (darken L h cfg el (e, d)))) el))
           = style_color (style (elems d el))"
    by (simp add: undarken_style[OF m] darken_themes[OF nf nm] theme_dataset clean truthy_def)
  show "style_backgroundColor (style (elems (undarken el (snd (darken L h cfg el (e, d)))) el))
           = style_backgroundColor (style (elems d el))"
    by (simp add: undarken_style[OF m] darken_themes[OF nf nm] theme_dataset clean truthy_def)
  show "style_borderColor (style (elems (undarken el (snd (darken L h cfg el (e, d)))) el))
           = (if c_alpha L (colord L (computed_borderColor (getComputedStyle h d el))) > 0
                 \<and> hoverRule h e el = None
              then style_borderColor (style (elems d el)) else '''')"
    by (simp add: undarken_style[OF m] darken_themes[OF nf nm] theme_dataset clean truthy_def)
qed

lemma defaultFilter_unfold:
  "filtered (exampleHost tags sels det sheets) exampleConfig el =
     list_ex (\<lambda>s. (el, s) \<in> set sels) defaultFilterSelectors"
  by (simp add: filtered_def exampleHost_def exampleConfig_def new_htmlFilterSet_def)

lemma hostA_filtered:
  "\<not> filtered (hostA det) exampleConfig 1" "\<not> filtered (hostA det) exampleConfig 2"
  "filtered (hostA det) exampleConfig 3" "\<not> filtered (hostA det) exampleConfig 5"
  "\<not> filtered (hostA det) exampleConfig 6" "\<not> filtered (hostA det) exampleConfig 7"
  by (simp_all add: hostA_def defaultFilter_unfold defaultFilterSelectors_def)

lemma hostB_filtered:
  "\<not> filtered hostB exampleConfig 1" "\<not> filtered hostB exampleConfig 2"
  "\<not> filtered hostB exampleConfig 3"
  by (simp_all add: hostB_def defaultFilter_unfold defaultFilterSelectors_def)

lemma domA_elems:
  "elems domA 2 = plainElement\<lparr>style := \<lparr>style_color = ''rgb(0, 0, 0)'',
               style_backgroundColor = ''rgb(255, 255, 255)'', style_borderColor = ''transparent'',
               style_backgroundImage = ''''\<rparr>\<rparr>"
  "elems domA 7 = plainElement\<lparr>style := \<lparr>style_color = '''', style_backgroundColor = '''',
               style_borderColor = ''rgb(255, 0, 0)'', style_backgroundImage = ''''\<rparr>\<rparr>"
  "elems domA 3 = plainElement"
  by (simp_all add: domA_def exampleDom_def)

lemma plainElement_dataset:
  "lightsOut (dataset plainElement) = None" "originalColor (dataset plainElement) = None"
  "originalBgColor (dataset plainElement) = None" "originalBorderColor (dataset plainElement) = None"
  by (simp_all add: plainElement_def)

lemma hostA_computed:
  "getComputedStyle (hostA det) d el = exampleComputedStyle d el"
  by (simp add: hostA_def exampleHost_def)

lemma grays_alpha_transparent: "c_alpha grays (colord grays ''rgba(0, 0, 0, 0)'') = 0"
  by (simp add: grays_def g_parse_def startsWith_def decimal_def digitVal_def lowerChar_def
      isDigit_def number_def)

lemma grays_alpha_red: "c_alpha grays (colord grays ''rgb(255, 0, 0)'') = 1"
  by (simp add: grays_def g_parse_def startsWith_def decimal_def digitVal_def lowerChar_def
      isDigit_def number_def)

subsection \<open>Round trip of theming and restoring\<close>

text \<open>
  C1, at an input where the code breaks it. On page A the \<^verbatim>\<open>div\<close> (2) has the inline
  declarations \<^verbatim>\<open>color: rgb(0, 0, 0)\<close>, \<^verbatim>\<open>background-color: rgb(255, 255, 255)\<close> and
  \<^verbatim>\<open>border-color: transparent\<close>. Its computed border has alpha 0, so \<^verbatim>\<open>#darken\<close>
  neither snapshots nor changes the border; \<^verbatim>\<open>#undarken\<close> finds no border snapshot and
  removes the inline border colour. Colour and background are restored, the border
  declaration is lost.
\<close>

theorem undarken_darken_drops_transparent_border:
  "style_color (style (elems (undarken 2 (snd (darken grays (hostA []) exampleConfig 2 (new_engine pageA, domA)))) 2))
     = ''rgb(0, 0, 0)''
   \<and> style_backgroundColor (style (elems (undarken 2 (snd (darken grays (hostA []) exampleConfig 2 (new_engine pageA, domA)))) 2))
     = ''rgb(255, 255, 255)''
   \<and> style_borderColor (style (elems domA 2)) = ''transparent''
   \<and> style_borderColor (style (elems (undarken 2 (snd (darken grays (hostA []) exampleConfig 2 (new_engine pageA, domA)))) 2))
     = ''''"
  by (simp add: undarken_darken_style hostA_filtered domA_elems plainElement_dataset
      hostA_computed exampleComputedStyle_def computedValue_def grays_alpha_transparent)

lemma walk_pageA:
  "walk (hostA det) (exampleConfig\<lparr>preserveHoverBorderColor := True\<rparr>) pageA (new_engine pageA)
   = (new_engine pageA)\<lparr>elements := [1, 2, 3, 5, 6, 7], observers := {5}, shadowRoots := [5],
       hoverColorRules := [(''.btn:hover'', CSSStyleRule ''.btn:hover'' ''.btn:hover { border-color: blue; }'')]\<rparr>"
  by (simp add: walk_def walkScope_def querySelectorAll_def pageA_def new_engine_def set_add_def
      getHoverBorderColorRules_def hostA_def exampleHost_def sheetA_def sameOrigin_def
      isStyleOrMediaRule_def styleRulesOf_def isHoverBorderRule_def setHoverRule_def
      startsWith_def)

lemma hoverRule_pageA_button:
  "hoverRule (hostA det)
     (walk (hostA det) (exampleConfig\<lparr>preserveHoverBorderColor := True\<rparr>) pageA (new_engine pageA)) 7
   \<noteq> None"
  unfolding walk_pageA
  by (simp add: hoverRule_def hostA_def exampleHost_def removeAll_def startsWith_def)

subsection \<open>A border kept for a hover rule\<close>

text \<open>
  C10. Take an element that is not excluded and not yet themed, whose computed border
  is not transparent and which matches a selector of the hover border index (the index
  is filled only when \<^verbatim>\<open>preserveHoverBorderColor\<close> is set). \<^verbatim>\<open>#darken\<close> leaves its
  inline border colour as it is and records no border snapshot; the \<^verbatim>\<open>#undarken\<close> that
  follows finds no snapshot and removes the inline border colour, which the engine had
  never written.
\<close>

theorem hover_border_untouched_then_cleared:
  assumes "\<not> filtered h cfg el"
    and "lightsOut (dataset (elems d el)) \<noteq> Some ''true''"
    and "originalBorderColor (dataset (elems d el)) = None"
    and "c_alpha L (colord L (computed_borderColor (getComputedStyle h d el))) > 0"
    and "hoverRule h e el \<noteq> None"
  shows "style_borderColor (style (elems (snd (darken L h cfg el (e, d))) el))
           = style_borderColor (style (elems d el))
         \<and> originalBorderColor (dataset (elems (snd (darken L h cfg el (e, d))) el)) = None
         \<and> style_borderColor (style (elems (undarken el (snd (darken L h cfg el (e, d)))) el)) = ''''"
proof -
  have m: "lightsOut (dataset (elems (snd (darken L h cfg el (e, d))) el)) = Some ''true''"
    by (rule darken_sets_marker[OF assms(1)])
  have hr: "(hoverRule h e el = None) = False"
    using assms(5) by blast
  have kept: "style_borderColor (style (elems (snd (darken L h cfg el (e, d))) el))
           = style_borderColor (style (elems d el))"
    by (simp add: darken_themes[OF assms(1,2)] theme_style hr)
  have nosnap: "originalBorderColor (dataset (elems (snd (darken L h cfg el (e, d))) el)) = None"
    using assms(3) by (simp add: darken_themes[OF assms(1,2)] theme_dataset hr)
  have "style_borderColor (style (elems (undarken el (snd (darken L h cfg el (e, d)))) el)) = ''''"
    by (simp add: undarken_style[OF m] nosnap truthy_def)
  with kept nosnap show ?thesis by simp
qed

theorem hover_border_untouched_then_cleared_witness:
  "\<not> filtered (hostA []) (exampleConfig\<lparr>preserveHoverBorderColor := True\<rparr>) 7
   \<and> lightsOut (dataset (elems domA 7)) \<noteq> Some ''true''
   \<and> originalBorderColor (dataset (elems domA 7)) = None
   \<and> c_alpha grays (colord grays (computed_borderColor (getComputedStyle (hostA []) domA 7))) > 0
   \<and> hoverRule (hostA [])
        (walk (hostA []) (exampleConfig\<lparr>preserveHoverBorderColor := True\<rparr>) pageA (new_engine pageA)) 7
      \<noteq> None
   \<and> style_borderColor (style (elems domA 7)) = ''rgb(255, 0, 0)''
   \<and> style_borderColor (style (elems (snd (darken grays (hostA [])
          (exampleConfig\<lparr>preserveHoverBorderColor := True\<rparr>) 7
          (walk (hostA []) (exampleConfig\<lparr>preserveHoverBorderColor := True\<rparr>) pageA (new_engine pageA),
           domA))) 7))
      = ''rgb(255, 0, 0)''
   \<and> originalBorderColor (dataset (elems (snd (darken grays (hostA [])
          (exampleConfig\<lparr>preserveHoverBorderColor := True\<rparr>) 7
          (walk (hostA []) (exampleConfig\<lparr>preserveHoverBorderColor := True\<rparr>) pageA (new_engine pageA),
           domA))) 7))
      = None
   \<and> style_borderColor (style (elems (undarken 7 (snd (darken grays (hostA [])
          (exampleConfig\<lparr>preserveHoverBorderColor := True\<rparr>) 7
          (walk (hostA []) (exampleConfig\<lparr>preserveHoverBorderColor := True\<rparr>) pageA (new_engine pageA),
           domA)))) 7))
      = ''''"
proof -
  have f: "\<not> filtered (hostA []) (exampleConfig\<lparr>preserveHoverBorderColor := True\<rparr>) 7"
    using hostA_filtered(6)[of "[]"] by (simp add: filtered_def)
  have m: "lightsOut (dataset (elems domA 7)) \<noteq> Some ''true''"
    by (simp add: domA_elems plainElement_dataset)
  have s: "originalBorderColor (dataset (elems domA 7)) = None"
    by (simp add: domA_elems plainElement_dataset)
  have a: "c_alpha grays (colord grays (computed_borderColor (getComputedStyle (hostA []) domA 7))) > 0"
    by (simp add: hostA_computed exampleComputedStyle_def computedValue_def domA_elems grays_alpha_red)
  have b: "style_borderColor (style (elems domA 7)) = ''rgb(255, 0, 0)''"
    by (simp add: domA_elems)
  from hover_border_untouched_then_cleared[OF f m s a hoverRule_pageA_button[of "[]"]] f m s a b
    hoverRule_pageA_button[of "[]"]
  show ?thesis by simp
qed

subsection \<open>Theming twice\<close>

text \<open>
  C4. Applying \<^verbatim>\<open>#darken\<close> to an element twice in a row leaves the document (every
  inline style, every snapshot entry and marker) exactly as one application does:
  after the first call the element is either excluded by the filter or carries the
  marker, and in both cases the second call writes nothing.
\<close>

theorem darken_twice:
  "snd (darken L h cfg el (darken L h cfg el st)) = snd (darken L h cfg el st)"
proof (cases "filtered h cfg el")
  case True
  then show ?thesis by (simp add: darken_filtered)
next
  case False
  show ?thesis
    by (rule darken_marked[OF darken_sets_marker[OF False]])
qed

theorem darken_twice_witness:
  "snd (darken grays (hostA []) exampleConfig 2
          (darken grays (hostA []) exampleConfig 2 (new_engine pageA, domA)))
     = snd (darken grays (hostA []) exampleConfig 2 (new_engine pageA, domA))
   \<and> lightsOut (dataset (elems (snd (darken grays (hostA []) exampleConfig 2 (new_engine pageA, domA))) 2))
     = Some ''true''
   \<and> lightsOut (dataset (elems domA 2)) = None"
proof -
  have mk: "lightsOut (dataset (elems (snd (darken grays (hostA []) exampleConfig 2 (new_engine pageA, domA))) 2))
     = Some ''true''"
    by (rule darken_sets_marker[OF hostA_filtered(2)])
  from darken_twice[of grays "hostA []" exampleConfig 2 "(new_engine pageA, domA)"] mk
  show ?thesis by (simp add: domA_elems plainElement_dataset)
qed

subsection \<open>The background policy\<close>

lemma grays_parse_40: "colord grays ''rgb(40, 40, 40)'' = \<lparr>quarters = 160, g_alpha = 1\<rparr>"
  by (simp add: grays_def g_parse_def startsWith_def decimal_def digitVal_def lowerChar_def isDigit_def)

lemma grays_black: "c_toHex grays \<lparr>quarters = 0, g_alpha = 1\<rparr> = ''#000000''"
  by (simp add: grays_def g_toHex_def hexByte_def)

lemma domB_elems:
  "elems domB 2 = plainElement\<lparr>style := \<lparr>style_color = '''', style_backgroundColor = ''rgb(40, 40, 40)'',
               style_borderColor = '''', style_backgroundImage = ''''\<rparr>\<rparr>"
  "elems domB 3 = plainElement\<lparr>style := \<lparr>style_color = '''', style_backgroundColor = ''rgb(40, 40, 40)'',
               style_borderColor = '''', style_backgroundImage = ''''\<rparr>\<rparr>"
  by (simp_all add: domB_def exampleDom_def)

lemma hostB_rootTag:
  "isPageRootTag hostB (new_engine pageB) 2" "\<not> isPageRootTag hostB (new_engine pageB) 3"
  by (simp_all add: isPageRootTag_def hostB_def exampleHost_def new_engine_def pageB_def
      toLowerCase_def lowerChar_def)

lemma hostB_background:
  "computed_backgroundColor (getComputedStyle hostB domB 2) = ''rgb(40, 40, 40)''"
  "computed_backgroundColor (getComputedStyle hostB domB 3) = ''rgb(40, 40, 40)''"
  by (simp_all add: hostB_def exampleHost_def exampleComputedStyle_def computedValue_def domB_elems
      Let_def)

text \<open>
  C3, at an input where the code breaks it. On page B the theming root is the
  \<^verbatim>\<open>div\<close> (1). Its child \<^verbatim>\<open>div\<close> (2) is not the theming root and its background
  \<^verbatim>\<open>rgb(40, 40, 40)\<close> is already dark, yet \<^verbatim>\<open>#darken\<close> forces it to the darkened value
  at the configured alpha, because the test compares tag names. The \<^verbatim>\<open>span\<close> (3) with
  the same background is left as it is.
\<close>

theorem darken_forces_background_of_same_tag:
  "nid (pageRoot (new_engine pageB)) = 1
   \<and> c_isDark grays (colord grays ''rgb(40, 40, 40)'')
   \<and> style_backgroundColor (style (elems domB 2)) = ''rgb(40, 40, 40)''
   \<and> style_backgroundColor (style (elems (snd (darken grays hostB exampleConfig 2 (new_engine pageB, domB))) 2))
       = ''#000000''
   \<and> style_backgroundColor (style (elems (snd (darken grays hostB exampleConfig 3 (new_engine pageB, domB))) 3))
       = ''rgb(40, 40, 40)''"
proof -
  have m: "lightsOut (dataset (elems domB 2)) \<noteq> Some ''true''"
    "lightsOut (dataset (elems domB 3)) \<noteq> Some ''true''"
    by (simp_all add: domB_elems plainElement_dataset)
  have dark: "c_isDark grays (colord grays ''rgb(40, 40, 40)'')"
    unfolding grays_parse_40 by (simp add: grays_def g_isDark_def)
  have forced: "darkBackground grays hostB exampleConfig (new_engine pageB) ''rgb(40, 40, 40)'' 2 = ''#000000''"
    unfolding darkBackground_def Let_def grays_parse_40
    by (simp add: hostB_rootTag exampleConfig_def grays_def g_darken_def g_toHex_def hexByte_def)
  have kept: "darkBackground grays hostB exampleConfig (new_engine pageB) ''rgb(40, 40, 40)'' 3 = ''rgb(40, 40, 40)''"
    unfolding darkBackground_def Let_def using dark by (simp add: hostB_rootTag)
  have r: "nid (pageRoot (new_engine pageB)) = 1"
    by (simp add: new_engine_def pageB_def)
  show ?thesis
    by (simp add: r dark darken_themes[OF hostB_filtered(2) m(1)]
        darken_themes[OF hostB_filtered(3) m(2)] theme_style hostB_background forced kept domB_elems)
qed

subsection \<open>Facts about \<^verbatim>\<open>#traverse\<close>, \<^verbatim>\<open>#walk\<close> and \<^verbatim>\<open>#clear\<close>\<close>

lemma set_set_add [simp]: "set (set_add x xs) = insert x (set xs)"
  by (auto simp: set_add_def)

lemma fold_traverse_elements:
  assumes "\<And>x e. x \<in> set xs \<Longrightarrow> set (elements (traverse h x e)) = set (elements e) \<union> inserted x"
  shows "set (elements (fold (traverse h) xs e)) = set (elements e) \<union> \<Union> (set (map inserted xs))"
  using assms by (induction xs arbitrary: e) auto

lemma traverse_elements: "set (elements (traverse h n e)) = set (elements e) \<union> inserted n"
proof (induction h n e rule: traverse.induct)
  case (1 h i b cs sh e)
  show ?case
  proof (cases "b \<and> sh \<noteq> None")
    case False
    then show ?thesis by (auto split: option.splits)
  next
    case True
    then obtain sr where sr: "sh = Some sr" and b: b by auto
    have "\<And>x e'. x \<in> set (querySelectorAll (nodes sr)) \<Longrightarrow>
        set (elements (traverse h x e')) = set (elements e') \<union> inserted x"
      using "1.IH"[OF b refl sr] by blast
    from fold_traverse_elements[OF this] show ?thesis
      using sr b by (simp add: Let_def)
  qed
qed

lemma walk_elements: "set (elements (walk h cfg r e)) = set (elements e) \<union> walkInserted r"
proof -
  have "\<And>xs e. set (elements (fold (traverse h) xs e)) = set (elements e) \<union> \<Union> (set (map inserted xs))"
    by (rule fold_traverse_elements) (rule traverse_elements)
  then show ?thesis
    by (auto simp: walk_def walkInserted_def Let_def getHoverBorderColorRules_def)
qed

lemma fold_unchanged:
  assumes "\<And>x s. x \<in> set xs \<Longrightarrow> P (f x s) = P s"
  shows "P (fold f xs s) = P s"
  using assms by (induction xs arbitrary: s) auto

lemma traverse_untraversed: "untraversed (traverse h n e) = untraversed e"
proof (induction h n e rule: traverse.induct)
  case (1 h i b cs sh e)
  show ?case
  proof (cases "b \<and> sh \<noteq> None")
    case False
    then show ?thesis by (auto simp: untraversed_def split: option.splits)
  next
    case True
    then obtain sr where sr: "sh = Some sr" and b: b by auto
    have "\<And>x e'. x \<in> set (querySelectorAll (nodes sr)) \<Longrightarrow>
        untraversed (traverse h x e') = untraversed e'"
      using "1.IH"[OF b refl sr] by blast
    from fold_unchanged[of "querySelectorAll (nodes sr)" untraversed "traverse h", OF this]
    show ?thesis
      using sr b by (simp add: Let_def untraversed_def)
  qed
qed

lemma fold_traverse_observers:
  assumes "\<And>x e. x \<in> set xs \<Longrightarrow> observers (traverse h x e) = observers e \<union> shadowHosts x"
  shows "observers (fold (traverse h) xs e) = observers e \<union> \<Union> (set (map shadowHosts xs))"
  using assms by (induction xs arbitrary: e) auto

lemma traverse_observers: "observers (traverse h n e) = observers e \<union> shadowHosts n"
proof (induction h n e rule: traverse.induct)
  case (1 h i b cs sh e)
  show ?case
  proof (cases "b \<and> sh \<noteq> None")
    case False
    then show ?thesis by (auto split: option.splits)
  next
    case True
    then obtain sr where sr: "sh = Some sr" and b: b by auto
    have "\<And>x e'. x \<in> set (querySelectorAll (nodes sr)) \<Longrightarrow>
        observers (traverse h x e') = observers e' \<union> shadowHosts x"
      using "1.IH"[OF b refl sr] by blast
    from fold_traverse_observers[OF this] show ?thesis
      using sr b by (auto simp: Let_def)
  qed
qed

text \<open>
  A traversal started with other registered observers and another cached background
  colour does the same, and carries both along.
\<close>

lemma fold_traverse_upd:
  assumes "\<And>x e X. x \<in> set xs \<Longrightarrow>
      traverse h x (e\<lparr>observers := X, backgroundColor := c\<rparr>)
        = (traverse h x e)\<lparr>observers := X \<union> shadowHosts x, backgroundColor := c\<rparr>"
  shows "fold (traverse h) xs (e\<lparr>observers := X, backgroundColor := c\<rparr>)
        = (fold (traverse h) xs e)\<lparr>observers := X \<union> \<Union> (set (map shadowHosts xs)), backgroundColor := c\<rparr>"
  using assms
proof (induction xs arbitrary: e X)
  case Nil
  then show ?case by simp
next
  case (Cons x xs)
  have "fold (traverse h) (x # xs) (e\<lparr>observers := X, backgroundColor := c\<rparr>)
      = fold (traverse h) xs ((traverse h x e)\<lparr>observers := X \<union> shadowHosts x, backgroundColor := c\<rparr>)"
    by (simp add: Cons.prems)
  also have "\<dots> = (fold (traverse h) xs (traverse h x e))
      \<lparr>observers := (X \<union> shadowHosts x) \<union> \<Union> (set (map shadowHosts xs)), backgroundColor := c\<rparr>"
    by (rule Cons.IH) (simp add: Cons.prems)
  finally show ?case by (simp add: Un_assoc)
qed

lemma traverse_upd:
  "traverse h n (e\<lparr>observers := X, backgroundColor := c\<rparr>)
     = (traverse h n e)\<lparr>observers := X \<union> shadowHosts n, backgroundColor := c\<rparr>"
proof (induction h n e arbitrary: X rule: traverse.induct)
  case (1 h i b cs sh e)
  show ?case
  proof (cases "b \<and> sh \<noteq> None")
    case False
    then show ?thesis by (auto split: option.splits)
  next
    case True
    then obtain sr where sr: "sh = Some sr" and b: b by auto
    have step: "\<And>x e' X'. x \<in> set (querySelectorAll (nodes sr)) \<Longrightarrow>
        traverse h x (e'\<lparr>observers := X', backgroundColor := c\<rparr>)
          = (traverse h x e')\<lparr>observers := X' \<union> shadowHosts x, backgroundColor := c\<rparr>"
      using "1.IH"[OF b refl sr] by blast
    define e4 where "e4 = e\<lparr>elements := set_add i (elements e), observers := insert i (observers e),
        shadowRoots := set_add i (shadowRoots e),
        shadowSheets := fold set_add (filter (sameOrigin h) (styleSheets sr)) (shadowSheets e)\<rparr>"
    have lhs: "traverse h (Node i b cs sh) (e\<lparr>observers := X, backgroundColor := c\<rparr>)
        = fold (traverse h) (querySelectorAll (nodes sr)) (e4\<lparr>observers := insert i X, backgroundColor := c\<rparr>)"
      using sr b by (cases e) (auto simp add: Let_def e4_def insert_absorb)
    have rhs: "traverse h (Node i b cs sh) e = fold (traverse h) (querySelectorAll (nodes sr)) e4"
      using sr b by (cases e) (auto simp add: Let_def e4_def insert_absorb)
    have "fold (traverse h) (querySelectorAll (nodes sr)) (e4\<lparr>observers := insert i X, backgroundColor := c\<rparr>)
        = (fold (traverse h) (querySelectorAll (nodes sr)) e4)
            \<lparr>observers := insert i X \<union> \<Union> (set (map shadowHosts (querySelectorAll (nodes sr)))),
             backgroundColor := c\<rparr>"
      by (rule fold_traverse_upd) (rule step)
    then show ?thesis
      unfolding lhs rhs using sr b by simp
  qed
qed

lemma getHoverBorderColorRules_frame:
  "isEnabled (getHoverBorderColorRules h e) = isEnabled e"
  "pageRoot (getHoverBorderColorRules h e) = pageRoot e"
  "pageObserved (getHoverBorderColorRules h e) = pageObserved e"
  "backgroundColor (getHoverBorderColorRules h e) = backgroundColor e"
  "observers (getHoverBorderColorRules h e) = observers e"
  "elements (getHoverBorderColorRules h e) = elements e"
  "shadowRoots (getHoverBorderColorRules h e) = shadowRoots e"
  by (simp_all add: getHoverBorderColorRules_def Let_def)

lemma walk_frame:
  "isEnabled (walk h cfg r e) = isEnabled e"
  "pageRoot (walk h cfg r e) = pageRoot e"
  "pageObserved (walk h cfg r e) = pageObserved e"
  "backgroundColor (walk h cfg r e) = backgroundColor e"
proof -
  have "untraversed (fold (traverse h) xs e') = untraversed e'" for xs e'
    by (rule fold_unchanged) (rule traverse_untraversed)
  then have u: "isEnabled (fold (traverse h) xs e') = isEnabled e'"
    "pageRoot (fold (traverse h) xs e') = pageRoot e'"
    "pageObserved (fold (traverse h) xs e') = pageObserved e'"
    "backgroundColor (fold (traverse h) xs e') = backgroundColor e'" for xs e'
    by (simp_all add: untraversed_def)
  show "isEnabled (walk h cfg r e) = isEnabled e" "pageRoot (walk h cfg r e) = pageRoot e"
    "pageObserved (walk h cfg r e) = pageObserved e"
    "backgroundColor (walk h cfg r e) = backgroundColor e"
    by (simp_all add: walk_def Let_def getHoverBorderColorRules_frame u)
qed

lemma walk_observers: "observers (walk h cfg r e) = observers e \<union> walkHosts r"
proof -
  have "observers (fold (traverse h) xs e') = observers e' \<union> \<Union> (set (map shadowHosts xs))" for xs e'
    by (rule fold_traverse_observers) (rule traverse_observers)
  then show ?thesis
    by (simp add: walk_def Let_def getHoverBorderColorRules_frame walkHosts_def)
qed

lemma walk_upd:
  "walk h cfg r (e\<lparr>observers := X, backgroundColor := c\<rparr>)
     = (walk h cfg r e)\<lparr>observers := X \<union> walkHosts r, backgroundColor := c\<rparr>"
proof -
  have f: "fold (traverse h) xs (e'\<lparr>observers := X, backgroundColor := c\<rparr>)
        = (fold (traverse h) xs e')\<lparr>observers := X \<union> \<Union> (set (map shadowHosts xs)), backgroundColor := c\<rparr>"
    for xs e'
    by (rule fold_traverse_upd) (rule traverse_upd)
  have g: "getHoverBorderColorRules h (e'\<lparr>observers := Y, backgroundColor := c\<rparr>)
        = (getHoverBorderColorRules h e')\<lparr>observers := Y, backgroundColor := c\<rparr>" for e' Y
    by (simp add: getHoverBorderColorRules_def Let_def)
  have sw: "(e\<lparr>observers := X, backgroundColor := c\<rparr>)\<lparr>elements := E\<rparr>
        = (e\<lparr>elements := E\<rparr>)\<lparr>observers := X, backgroundColor := c\<rparr>" for E
    by (cases e) simp
  have el: "elements (e\<lparr>observers := X, backgroundColor := c\<rparr>) = elements e"
    by simp
  show ?thesis
    unfolding walk_def Let_def el sw
    by (cases "isHTMLElement r"; cases "preserveHoverBorderColor cfg")
       (simp_all only: f g walkHosts_def if_True if_False)
qed

subsection \<open>Facts about a theming pass\<close>

lemma fold_darken_engine:
  "fst (fold (darken L h cfg) xs st)
     = (fst st)\<lparr>backgroundColor := backgroundColor (fst (fold (darken L h cfg) xs st))\<rparr>"
proof (induction xs arbitrary: st)
  case Nil
  then show ?case by simp
next
  case (Cons x xs)
  have "fst (fold (darken L h cfg) (x # xs) st)
      = (fst (darken L h cfg x st))\<lparr>backgroundColor := backgroundColor (fst (fold (darken L h cfg) (x # xs) st))\<rparr>"
    using Cons.IH[of "darken L h cfg x st"] by simp
  also have "\<dots> = (fst st)\<lparr>backgroundColor := backgroundColor (fst (fold (darken L h cfg) (x # xs) st))\<rparr>"
    by (subst darken_engine_frame) simp
  finally show ?case .
qed

lemma fold_darken_frame:
  "observers (fst (fold (darken L h cfg) xs st)) = observers (fst st)"
  "elements (fst (fold (darken L h cfg) xs st)) = elements (fst st)"
  "shadowRoots (fst (fold (darken L h cfg) xs st)) = shadowRoots (fst st)"
  "isEnabled (fst (fold (darken L h cfg) xs st)) = isEnabled (fst st)"
  "pageRoot (fst (fold (darken L h cfg) xs st)) = pageRoot (fst st)"
  "pageObserved (fst (fold (darken L h cfg) xs st)) = pageObserved (fst st)"
  by (subst fold_darken_engine, simp)+

lemma fold_darken_dom_frame:
  "sheetText (snd (fold (darken L h cfg) xs st)) = sheetText (snd st)"
  "documentAdopted (snd (fold (darken L h cfg) xs st)) = documentAdopted (snd st)"
  "shadowAdopted (snd (fold (darken L h cfg) xs st)) = shadowAdopted (snd st)"
  by (induction xs arbitrary: st; simp add: darken_dom_frame)+

lemma fold_darken_filtered:
  assumes "filtered h cfg el"
  shows "elems (snd (fold (darken L h cfg) xs st)) el = elems (snd st) el"
proof (induction xs arbitrary: st)
  case Nil
  then show ?case by simp
next
  case (Cons x xs)
  have "elems (snd (darken L h cfg x st)) el = elems (snd st) el"
  proof (cases "x = el")
    case True
    with assms show ?thesis by (simp add: darken_filtered)
  next
    case False
    then show ?thesis by (simp add: darken_other)
  qed
  with Cons.IH[of "darken L h cfg x st"] show ?case by simp
qed

lemma fold_adoptSheet_frame:
  "elems (fold adoptSheet xs d) = elems d" "sheetText (fold adoptSheet xs d) = sheetText d"
  "documentAdopted (fold adoptSheet xs d) = documentAdopted d"
  by (induction xs arbitrary: d; simp add: adoptSheet_def)+

lemma update_fst:
  "fst (update L h cfg r (e, d))
     = fst (fold (darken L h cfg) (elements (walk h cfg r (clear h e))) (walk h cfg r (clear h e), d))"
  by (simp add: update_def Let_def)

lemma update_elems:
  "elems (snd (update L h cfg r (e, d)))
     = elems (snd (fold (darken L h cfg) (elements (walk h cfg r (clear h e))) (walk h cfg r (clear h e), d)))"
  by (simp add: update_def Let_def fold_adoptSheet_frame)

lemma update_observers:
  "observers (fst (update L h cfg r (e, d))) = Set.filter (isConnected h) (observers e) \<union> walkHosts r"
  by (simp add: update_fst fold_darken_frame walk_observers clear_def)

subsection \<open>Exclusion by the filter\<close>

text \<open>
  C5. For an element that matches a selector of the filter set, \<^verbatim>\<open>#darken\<close> changes
  nothing at all, and a whole theming pass (\<^verbatim>\<open>#update\<close>, also when run by
  \<^verbatim>\<open>enable\<close>) leaves the element's inline style, snapshot entries and marker as they
  were.
\<close>

theorem filtered_element_untouched:
  assumes "filtered h cfg el"
  shows "darken L h cfg el st = st
         \<and> elems (snd (update L h cfg r st)) el = elems (snd st) el
         \<and> elems (snd (enable L h cfg st)) el = elems (snd st) el"
proof -
  obtain e d where st: "st = (e, d)" by (cases st)
  have u: "elems (snd (update L h cfg r' (e', d'))) el = elems d' el" for r' e' d'
    by (simp add: update_elems fold_darken_filtered[OF assms])
  show ?thesis
    unfolding st by (simp add: darken_filtered[OF assms] u enable_def Let_def)
qed

theorem filtered_element_untouched_witness:
  "filtered (hostA []) exampleConfig 3
   \<and> darken grays (hostA []) exampleConfig 3 (new_engine pageA, domA) = (new_engine pageA, domA)
   \<and> elems (snd (update grays (hostA []) exampleConfig pageA (new_engine pageA, domA))) 3 = elems domA 3
   \<and> elems (snd (enable grays (hostA []) exampleConfig (new_engine pageA, domA))) 3 = elems domA 3
   \<and> 3 \<in> set (elements (fst (update grays (hostA []) exampleConfig pageA (new_engine pageA, domA))))"
proof -
  have "set (elements (fst (update grays (hostA []) exampleConfig pageA (new_engine pageA, domA))))
      = walkInserted pageA"
    by (simp add: update_fst fold_darken_frame walk_elements clear_def new_engine_def)
  moreover have "3 \<in> walkInserted pageA"
    by (simp add: walkInserted_def pageA_def walkScope_def querySelectorAll_def)
  moreover have "darken grays (hostA []) exampleConfig 3 (new_engine pageA, domA) = (new_engine pageA, domA)
      \<and> elems (snd (update grays (hostA []) exampleConfig pageA (new_engine pageA, domA))) 3
          = elems (snd (new_engine pageA, domA)) 3
      \<and> elems (snd (enable grays (hostA []) exampleConfig (new_engine pageA, domA))) 3
          = elems (snd (new_engine pageA, domA)) 3"
    by (rule filtered_element_untouched[OF hostA_filtered(3)])
  ultimately show ?thesis
    using hostA_filtered(3)[of "[]"] by simp
qed

subsection \<open>The Membership Set\<close>

lemma walk_pageA_plain:
  "walk (hostA det) exampleConfig pageA (new_engine pageA)
   = (new_engine pageA)\<lparr>elements := [1, 2, 3, 5, 6, 7], observers := {5}, shadowRoots := [5]\<rparr>"
  by (simp add: walk_def walkScope_def querySelectorAll_def pageA_def new_engine_def set_add_def
      exampleConfig_def)

text \<open>
  C6, as amended. After a re-index the Membership Set holds what it held before, the
  root if it is an HTMLElement, and every HTMLElement the traversal reaches, and
  nothing else. The filter set plays no part in it: with any other filter set the
  same elements are inserted. (Excluded elements are skipped later, by
  \<^verbatim>\<open>#darken\<close>.)
\<close>

theorem walk_inserts_regardless_of_filter:
  "set (elements (walk h cfg r e)) = set (elements e) \<union> walkInserted r
   \<and> elements (walk h (cfg\<lparr>htmlFilterSet := fs\<rparr>) r e) = elements (walk h cfg r e)"
proof -
  have "elements (walk h (cfg\<lparr>htmlFilterSet := fs\<rparr>) r e) = elements (walk h cfg r e)"
    by (simp add: walk_def Let_def)
  with walk_elements[of h cfg r e] show ?thesis by blast
qed

theorem walk_inserts_regardless_of_filter_witness:
  "set (elements (walk (hostA []) exampleConfig pageA (new_engine pageA)))
     = set (elements (new_engine pageA)) \<union> walkInserted pageA
   \<and> elements (walk (hostA []) (exampleConfig\<lparr>htmlFilterSet := []\<rparr>) pageA (new_engine pageA))
     = elements (walk (hostA []) exampleConfig pageA (new_engine pageA))
   \<and> elements (walk (hostA []) exampleConfig pageA (new_engine pageA)) = [1, 2, 3, 5, 6, 7]"
  using walk_inserts_regardless_of_filter[of "hostA []" exampleConfig pageA "new_engine pageA" "[]"]
  by (simp add: walk_pageA_plain)

text \<open>
  The claim as stated fails: on page A the \<^verbatim>\<open>script\<close> element (3) matches the default
  filter set and is inserted into the Membership Set by the re-index.
\<close>

theorem filtered_element_inserted_counterexample:
  "3 \<in> set (elements (walk (hostA []) exampleConfig pageA (clear (hostA []) (new_engine pageA))))
   \<and> filtered (hostA []) exampleConfig 3"
proof -
  have "clear (hostA []) (new_engine pageA) = new_engine pageA"
    by (simp add: clear_def new_engine_def)
  then show ?thesis
    by (simp add: walk_pageA_plain hostA_filtered)
qed

subsection \<open>Observer cleanup\<close>

lemma allNodes_self: "n \<in> set (allNodes n)"
  by (cases n) simp

lemma allNodes_child: "c \<in> set cs \<Longrightarrow> set (allNodes c) \<subseteq> set (allNodes (Node i b cs sh))"
  by auto

lemma allNodes_shadow_child:
  "c \<in> set (nodes sr) \<Longrightarrow> set (allNodes c) \<subseteq> set (allNodes (Node i b cs (Some sr)))"
  by auto

lemma allNodes_descendants: "x \<in> set (descendants n) \<Longrightarrow> set (allNodes x) \<subseteq> set (allNodes n)"
proof (induction n arbitrary: x rule: descendants.induct)
  case (1 i b cs sh)
  from "1.prems" obtain c where c: "c \<in> set cs" and x: "x = c \<or> x \<in> set (descendants c)"
    by auto
  from x have "set (allNodes x) \<subseteq> set (allNodes c)"
    using "1.IH"[OF c] by auto
  with allNodes_child[OF c, of i b sh] show ?case by blast
qed

lemma allNodes_querySelectorAll:
  assumes "x \<in> set (querySelectorAll cs)"
  shows "\<exists>c \<in> set cs. set (allNodes x) \<subseteq> set (allNodes c)"
proof -
  from assms obtain c where c: "c \<in> set cs" and x: "x = c \<or> x \<in> set (descendants c)"
    by (auto simp: querySelectorAll_def)
  from x have "set (allNodes x) \<subseteq> set (allNodes c)"
    using allNodes_descendants by auto
  with c show ?thesis by blast
qed

lemma shadowHosts_allNodes: "shadowHosts n \<subseteq> nid ` set (allNodes n)"
proof (induction n rule: shadowHosts.induct)
  case (1 i b cs sh)
  show ?case
  proof (cases "b \<and> sh \<noteq> None")
    case False
    then show ?thesis by (auto split: option.splits)
  next
    case True
    then obtain sr where sr: "sh = Some sr" and b: b by auto
    have "shadowHosts x \<subseteq> nid ` set (allNodes (Node i b cs sh))"
      if x: "x \<in> set (querySelectorAll (nodes sr))" for x
    proof -
      from allNodes_querySelectorAll[OF x] obtain c where c: "c \<in> set (nodes sr)"
        and sub: "set (allNodes x) \<subseteq> set (allNodes c)" by blast
      from allNodes_shadow_child[OF c, of i b cs] sub sr
      have "set (allNodes x) \<subseteq> set (allNodes (Node i b cs sh))" by blast
      with "1.IH"[OF b sr x] show ?thesis by blast
    qed
    moreover have "i \<in> nid ` set (allNodes (Node i b cs sh))"
      using allNodes_self[of "Node i b cs sh"] by force
    ultimately show ?thesis
      using sr b by (simp del: allNodes.simps) blast
  qed
qed

lemma walkHosts_allNodes: "walkHosts r \<subseteq> nid ` set (allNodes r)"
proof -
  have "shadowHosts x \<subseteq> nid ` set (allNodes r)" if x: "x \<in> set (walkScope r)" for x
  proof -
    obtain i b cs sh where r: "r = Node i b cs sh" by (cases r)
    have "x \<in> set (querySelectorAll (case sh of Some sr \<Rightarrow> nodes sr | None \<Rightarrow> cs))"
      using x by (cases sh) (simp_all add: walkScope_def r)
    from allNodes_querySelectorAll[OF this]
    obtain c where c: "c \<in> set (case sh of Some sr \<Rightarrow> nodes sr | None \<Rightarrow> cs)"
      and sub: "set (allNodes x) \<subseteq> set (allNodes c)"
      by blast
    have "set (allNodes c) \<subseteq> set (allNodes r)"
      using c unfolding r by (cases sh) auto
    with sub shadowHosts_allNodes[of x] show ?thesis by blast
  qed
  then show ?thesis by (auto simp: walkHosts_def)
qed

text \<open>
  C7, as amended. After \<^verbatim>\<open>disable()\<close> the registry of sub-tree observers is empty and
  the page observer observes nothing. After a re-theme pass over a root whose elements,
  shadow trees included, are all attached to the document, every host with a
  registered observer is attached.
\<close>

theorem observers_cleaned_up:
  "observers (fst (disable h cfg st)) = {}
   \<and> pageObserved (fst (disable h cfg st)) = {}
   \<and> ((\<forall>n \<in> set (allNodes r). isConnected h (nid n))
        \<longrightarrow> (\<forall>x \<in> observers (fst (update L h cfg r st)). isConnected h x))"
proof -
  obtain e d where st: "st = (e, d)" by (cases st)
  have "observers (fst (disable h cfg st)) = {}" "pageObserved (fst (disable h cfg st)) = {}"
    unfolding st by (simp_all add: disable_def Let_def clear_def)
  moreover have "isConnected h x"
    if conn: "\<forall>n \<in> set (allNodes r). isConnected h (nid n)"
      and x: "x \<in> observers (fst (update L h cfg r st))" for x
  proof -
    from x have "x \<in> Set.filter (isConnected h) (observers e) \<or> x \<in> walkHosts r"
      unfolding st by (simp add: update_observers)
    then show ?thesis
    proof
      assume "x \<in> Set.filter (isConnected h) (observers e)"
      then show ?thesis by simp
    next
      assume "x \<in> walkHosts r"
      with walkHosts_allNodes[of r] obtain n where "n \<in> set (allNodes r)" "x = nid n" by blast
      with conn show ?thesis by blast
    qed
  qed
  ultimately show ?thesis by blast
qed

lemma walkHosts_pageA: "walkHosts pageA = {5}"
  by (simp add: walkHosts_def walkScope_def pageA_def querySelectorAll_def)

lemma allNodes_pageA: "map nid (allNodes pageA) = [1, 2, 3, 4, 5, 6, 7]"
  by (simp add: pageA_def)

theorem observers_cleaned_up_witness:
  "list_all (\<lambda>i. isConnected (hostA []) i) (map nid (allNodes pageA))
   \<and> observers (fst (update grays (hostA []) exampleConfig pageA (new_engine pageA, domA))) = {5}
   \<and> isConnected (hostA []) 5
   \<and> observers (fst (disable (hostA []) exampleConfig
        (update grays (hostA []) exampleConfig pageA (new_engine pageA, domA)))) = {}
   \<and> pageObserved (fst (disable (hostA []) exampleConfig
        (update grays (hostA []) exampleConfig pageA (new_engine pageA, domA)))) = {}"
proof -
  have conn: "\<forall>n \<in> set (allNodes pageA). isConnected (hostA []) (nid n)"
    by (simp add: hostA_def exampleHost_def)
  have obs: "observers (fst (update grays (hostA []) exampleConfig pageA (new_engine pageA, domA))) = {5}"
    by (simp add: update_observers walkHosts_pageA new_engine_def)
  from observers_cleaned_up[of "hostA []" exampleConfig
      "update grays (hostA []) exampleConfig pageA (new_engine pageA, domA)" pageA grays] conn obs
  show ?thesis
    by (simp add: allNodes_pageA hostA_def exampleHost_def)
qed

text \<open>
  The second part of the claim as stated fails when the root of the pass is not attached
  to the document: with page A detached, the pass registers an observer for the
  shadow host (5), which is detached.
\<close>

theorem observer_on_detached_host_counterexample:
  "5 \<in> observers (fst (update grays (hostA [1, 2, 3, 4, 5, 6, 7]) exampleConfig pageA (new_engine pageA, domA)))
   \<and> \<not> isConnected (hostA [1, 2, 3, 4, 5, 6, 7]) 5"
  by (simp add: update_observers walkHosts_pageA hostA_def exampleHost_def)

subsection \<open>Repeating a pass\<close>

text \<open>
  An element is settled when a further \<^verbatim>\<open>#darken\<close> of it changes nothing: it is
  excluded by the filter, or it carries the marker and, if it has the tag of the page
  root, the background colour of the engine is already cached.
\<close>

definition settled :: "host \<Rightarrow> config \<Rightarrow> engine \<times> dom \<Rightarrow> nat \<Rightarrow> bool" where
  "settled h cfg st x =
     (filtered h cfg x
      \<or> (lightsOut (dataset (elems (snd st) x)) = Some ''true''
         \<and> (\<not> isPageRootTag h (fst st) x \<or> backgroundColor (fst st) \<noteq> '''')))"

lemma settled_cong:
  "pageRoot (fst st') = pageRoot (fst st) \<Longrightarrow> backgroundColor (fst st') = backgroundColor (fst st)
   \<Longrightarrow> elems (snd st') = elems (snd st) \<Longrightarrow> settled h cfg st' x = settled h cfg st x"
  by (simp add: settled_def isPageRootTag_def)

lemma darken_settled_id: "settled h cfg st x \<Longrightarrow> darken L h cfg x st = st"
  by (cases st) (auto simp: settled_def darken_def Let_def)

lemma fold_darken_settled_id:
  "\<forall>x \<in> set xs. settled h cfg st x \<Longrightarrow> fold (darken L h cfg) xs st = st"
  by (induction xs) (simp_all add: darken_settled_id)

lemma darken_pageRootTag: "isPageRootTag h (fst (darken L h cfg x st)) y = isPageRootTag h (fst st) y"
  by (cases st) (simp add: darken_def Let_def isPageRootTag_def)

lemma darken_backgroundColor_kept:
  "backgroundColor (fst st) \<noteq> '''' \<Longrightarrow> backgroundColor (fst (darken L h cfg x st)) \<noteq> ''''"
  by (cases st) (simp add: darken_def Let_def)

lemma darken_marker_kept:
  assumes "lightsOut (dataset (elems (snd st) y)) = Some ''true''"
  shows "lightsOut (dataset (elems (snd (darken L h cfg x st)) y)) = Some ''true''"
proof (cases "x = y")
  case True
  with assms show ?thesis by (simp add: darken_marked)
next
  case False
  with assms show ?thesis by (simp add: darken_other)
qed

lemma darken_keeps_settled: "settled h cfg st y \<Longrightarrow> settled h cfg (darken L h cfg x st) y"
  unfolding settled_def
  using darken_marker_kept[of st y L h cfg x] darken_backgroundColor_kept[of st L h cfg x]
  by (auto simp: darken_pageRootTag)

lemma darken_settles:
  assumes "\<forall>c. c_toHex L c \<noteq> ''''"
  shows "settled h cfg (darken L h cfg x st) x"
proof (cases "filtered h cfg x")
  case True
  then show ?thesis by (simp add: settled_def)
next
  case False
  obtain e d where st: "st = (e, d)" by (cases st)
  have "isPageRootTag h e x \<Longrightarrow> backgroundColor (fst (darken L h cfg x (e, d))) \<noteq> ''''"
    using False assms by (simp add: darken_def Let_def darkBackground_def)
  with darken_sets_marker[OF False, of L st] show ?thesis
    unfolding settled_def st by (auto simp: darken_pageRootTag)
qed

lemma fold_darken_keeps_settled:
  "settled h cfg st y \<Longrightarrow> settled h cfg (fold (darken L h cfg) xs st) y"
  by (induction xs arbitrary: st) (simp_all add: darken_keeps_settled)

lemma fold_darken_settles:
  assumes "\<forall>c. c_toHex L c \<noteq> ''''"
  shows "\<forall>x \<in> set xs. settled h cfg (fold (darken L h cfg) xs st) x"
proof (induction xs arbitrary: st)
  case Nil
  then show ?case by simp
next
  case (Cons a xs)
  have "settled h cfg (fold (darken L h cfg) xs (darken L h cfg a st)) a"
    by (rule fold_darken_keeps_settled) (rule darken_settles[OF assms])
  with Cons.IH[of "darken L h cfg a st"] show ?case by simp
qed

text \<open>A second walk right after a pass rebuilds the engine state the pass left.\<close>

lemma clear_walk:
  "clear h (walk h cfg r (clear h e)) = (clear h e)\<lparr>observers :=
     Set.filter (isConnected h) (observers (walk h cfg r (clear h e)))\<rparr>"
  by (rule engine.equality) (simp_all add: clear_def walk_frame)

lemma rewalk:
  assumes W: "W = walk h cfg r (clear h e)"
  shows "walk h cfg r (clear h (W\<lparr>backgroundColor := c\<rparr>)) = W\<lparr>backgroundColor := c\<rparr>"
proof -
  let ?a = "clear h e"
  let ?X = "Set.filter (isConnected h) (observers W)"
  have "clear h (W\<lparr>backgroundColor := c\<rparr>) = (clear h W)\<lparr>backgroundColor := c\<rparr>"
    by (simp add: clear_def)
  also have "\<dots> = ?a\<lparr>observers := ?X, backgroundColor := c\<rparr>"
    unfolding W by (subst clear_walk) simp
  finally have "walk h cfg r (clear h (W\<lparr>backgroundColor := c\<rparr>))
      = W\<lparr>observers := ?X \<union> walkHosts r, backgroundColor := c\<rparr>"
    by (simp add: walk_upd W)
  moreover have "?X \<union> walkHosts r = observers W"
    unfolding W by (auto simp: walk_observers clear_def)
  ultimately show ?thesis by simp
qed

lemma update_twice:
  assumes hex: "\<forall>c. c_toHex L c \<noteq> ''''"
    and first: "update L h cfg r (e, d) = (E, D)"
    and same: "elems d' = elems D"
  shows "fst (update L h cfg r (E, d')) = E" and "elems (snd (update L h cfg r (E, d'))) = elems D"
proof -
  define W where "W = walk h cfg r (clear h e)"
  define S where "S = fold (darken L h cfg) (elements W) (W, d)"
  have E: "E = fst S" and D: "elems D = elems (snd S)"
    using first by (auto simp: update_def Let_def W_def S_def fold_adoptSheet_frame)
  have EW: "E = W\<lparr>backgroundColor := backgroundColor E\<rparr>"
    unfolding E S_def by (subst fold_darken_engine) simp
  have W2: "walk h cfg r (clear h E) = E"
    by (subst EW, subst rewalk[OF W_def]) (rule EW[symmetric])
  have els: "elements E = elements W"
    by (subst EW) simp
  have "\<forall>x \<in> set (elements W). settled h cfg S x"
    unfolding S_def by (rule fold_darken_settles[OF hex])
  moreover have "settled h cfg (E, d') x = settled h cfg S x" for x
    by (rule settled_cong) (simp_all add: E same D)
  ultimately have "\<forall>x \<in> set (elements W). settled h cfg (E, d') x" by simp
  then have id: "fold (darken L h cfg) (elements W) (E, d') = (E, d')"
    by (rule fold_darken_settled_id)
  show "fst (update L h cfg r (E, d')) = E"
    by (simp add: update_def Let_def W2 els id)
  show "elems (snd (update L h cfg r (E, d'))) = elems D"
    by (simp add: update_def Let_def W2 els id fold_adoptSheet_frame same)
qed

lemma update_frame:
  "isEnabled (fst (update L h cfg r (e, d))) = isEnabled e"
  "pageRoot (fst (update L h cfg r (e, d))) = pageRoot e"
  "pageObserved (fst (update L h cfg r (e, d))) = pageObserved e"
  "sheetText (snd (update L h cfg r (e, d))) = sheetText d"
  by (simp_all add: update_def Let_def fold_darken_frame walk_frame clear_def fold_adoptSheet_frame
      fold_darken_dom_frame)

lemma enable_twice:
  assumes hex: "\<forall>c. c_toHex L c \<noteq> ''''"
  shows "fst (enable L h cfg (enable L h cfg st)) = fst (enable L h cfg st)"
    and "elems (snd (enable L h cfg (enable L h cfg st))) = elems (snd (enable L h cfg st))"
    and "sheetText (snd (enable L h cfg (enable L h cfg st))) = sheetText (snd (enable L h cfg st))"
proof -
  obtain e d where st: "st = (e, d)" by (cases st)
  define e1 where "e1 = e\<lparr>isEnabled := True, pageObserved := insert (nid (pageRoot e)) (pageObserved e)\<rparr>"
  define d1 where "d1 = d\<lparr>sheetText := cssRules cfg, documentAdopted := documentAdopted d @ [EngineSheet]\<rparr>"
  obtain E D where first: "update L h cfg (pageRoot e) (e1, d1) = (E, D)"
    by (cases "update L h cfg (pageRoot e) (e1, d1)")
  have en: "enable L h cfg st = (E, D)"
    unfolding st using first by (simp add: enable_def Let_def e1_def d1_def)
  have fr: "isEnabled E" "pageRoot E = pageRoot e"
    "pageObserved E = insert (nid (pageRoot e)) (pageObserved e)" "sheetText D = cssRules cfg"
    using update_frame[of L h cfg "pageRoot e" e1 d1] unfolding first
    by (simp_all add: e1_def d1_def)
  have E1: "E\<lparr>isEnabled := True, pageObserved := insert (nid (pageRoot e)) (pageObserved e)\<rparr> = E"
    by (rule engine.equality) (simp_all add: fr)
  define d2 where "d2 = D\<lparr>sheetText := cssRules cfg, documentAdopted := documentAdopted D @ [EngineSheet]\<rparr>"
  have second: "enable L h cfg (E, D) = update L h cfg (pageRoot e) (E, d2)"
    by (simp add: enable_def Let_def d2_def fr E1)
  have same: "elems d2 = elems D" by (simp add: d2_def)
  show "fst (enable L h cfg (enable L h cfg st)) = fst (enable L h cfg st)"
    unfolding en second using update_twice(1)[OF hex first same] by simp
  show "elems (snd (enable L h cfg (enable L h cfg st))) = elems (snd (enable L h cfg st))"
    unfolding en second using update_twice(2)[OF hex first same] by simp
  show "sheetText (snd (enable L h cfg (enable L h cfg st))) = sheetText (snd (enable L h cfg st))"
    unfolding en second by (simp add: update_frame fr d2_def)
qed

lemma undarken_frame:
  "sheetText (undarken x d) = sheetText d" "documentAdopted (undarken x d) = documentAdopted d"
  "shadowAdopted (undarken x d) = shadowAdopted d"
  by (simp_all add: undarken_def Let_def)

lemma fold_undarken_sheetText: "sheetText (fold undarken xs d) = sheetText d"
  by (induction xs arbitrary: d) (simp_all add: undarken_frame)

lemma undarken_keeps_unmarked:
  assumes "lightsOut (dataset (elems d y)) \<noteq> Some ''true''"
  shows "lightsOut (dataset (elems (undarken x d) y)) \<noteq> Some ''true''"
proof (cases "x = y")
  case True
  then show ?thesis by (simp add: undarken_clears_marker)
next
  case False
  with assms show ?thesis by (simp add: undarken_other)
qed

lemma fold_undarken_keeps_unmarked:
  "lightsOut (dataset (elems d y)) \<noteq> Some ''true''
   \<Longrightarrow> lightsOut (dataset (elems (fold undarken xs d) y)) \<noteq> Some ''true''"
  by (induction xs arbitrary: d) (simp_all add: undarken_keeps_unmarked)

lemma fold_undarken_unmarks:
  "\<forall>x \<in> set xs. lightsOut (dataset (elems (fold undarken xs d) x)) \<noteq> Some ''true''"
proof (induction xs arbitrary: d)
  case Nil
  then show ?case by simp
next
  case (Cons a xs)
  have "lightsOut (dataset (elems (fold undarken xs (undarken a d)) a)) \<noteq> Some ''true''"
    by (rule fold_undarken_keeps_unmarked) (rule undarken_clears_marker)
  with Cons.IH[of "undarken a d"] show ?case by simp
qed

lemma fold_undarken_id:
  "\<forall>x \<in> set xs. lightsOut (dataset (elems d x)) \<noteq> Some ''true'' \<Longrightarrow> fold undarken xs d = d"
  by (induction xs) (simp_all add: undarken_unmarked)

lemma disable_fst:
  "fst (disable h cfg (e, d))
     = \<lparr>isEnabled = False, elements = [], observers = {}, shadowRoots = [], shadowSheets = [],
        hoverColorRules = [], pageRoot = pageRoot e, pageObserved = {}, backgroundColor = ''''\<rparr>"
  by (rule engine.equality) (simp_all add: disable_def Let_def clear_def walk_frame)

lemma disable_snd:
  "snd (disable h cfg (e, d))
     = fold undarken (elements (walk h cfg (pageRoot e) (e\<lparr>isEnabled := False\<rparr>))) (d\<lparr>sheetText := ''''\<rparr>)"
  by (simp add: disable_def Let_def)

lemma disable_twice: "disable h cfg (disable h cfg st) = disable h cfg st"
proof -
  obtain e d where st: "st = (e, d)" by (cases st)
  define xs where "xs = elements (walk h cfg (pageRoot e) (e\<lparr>isEnabled := False\<rparr>))"
  define E where "E = fst (disable h cfg (e, d))"
  define D where "D = fold undarken xs (d\<lparr>sheetText := ''''\<rparr>)"
  have first: "disable h cfg (e, d) = (E, D)"
    by (simp add: E_def D_def xs_def disable_snd[symmetric])
  have root: "pageRoot E = pageRoot e" and noels: "elements E = []"
    unfolding E_def by (simp_all add: disable_fst)
  have fst2: "fst (disable h cfg (E, D)) = E"
    by (subst disable_fst, subst E_def, subst disable_fst) (simp add: root)
  have "set (elements (walk h cfg (pageRoot E) (E\<lparr>isEnabled := False\<rparr>))) \<subseteq> set xs"
    by (simp add: walk_elements xs_def root noels)
  moreover have "\<forall>x \<in> set xs. lightsOut (dataset (elems D x)) \<noteq> Some ''true''"
    unfolding D_def by (rule fold_undarken_unmarks)
  ultimately have "\<forall>x \<in> set (elements (walk h cfg (pageRoot E) (E\<lparr>isEnabled := False\<rparr>))).
      lightsOut (dataset (elems D x)) \<noteq> Some ''true''"
    by blast
  then have id: "fold undarken (elements (walk h cfg (pageRoot E) (E\<lparr>isEnabled := False\<rparr>))) D = D"
    by (rule fold_undarken_id)
  have "sheetText D = ''''"
    by (simp add: D_def fold_undarken_sheetText)
  then have "D\<lparr>sheetText := ''''\<rparr> = D"
    by (cases D) simp
  then have snd2: "snd (disable h cfg (E, D)) = D"
    by (simp add: disable_snd id)
  from fst2 snd2 have "disable h cfg (E, D) = (E, D)"
    by (simp add: prod_eq_iff)
  then show ?thesis
    unfolding st first .
qed

subsection \<open>Calling \<^verbatim>\<open>enable\<close> or \<^verbatim>\<open>disable\<close> again\<close>

text \<open>
  C8. \<^verbatim>\<open>enable()\<close> leaves the engine Enabled, and a second \<^verbatim>\<open>enable()\<close> right after
  the first leaves every field of the engine, every element's inline style and dataset,
  and the text of the style sheet as the first call left them. \<^verbatim>\<open>disable()\<close> leaves the
  engine Disabled, and a second \<^verbatim>\<open>disable()\<close> leaves engine and document exactly as the
  first did. (Each call walks the tree again; the lists of adopted style sheets grow
  with every \<^verbatim>\<open>enable()\<close> and are not part of the statement.) The colour library is
  assumed to print a colour as a non-empty string, as colord's \<^verbatim>\<open>toHex\<close> does.
\<close>

theorem enable_disable_idempotent:
  assumes "\<forall>c. c_toHex L c \<noteq> ''''"
  shows "isEnabled (fst (enable L h cfg st))
         \<and> fst (enable L h cfg (enable L h cfg st)) = fst (enable L h cfg st)
         \<and> elems (snd (enable L h cfg (enable L h cfg st))) = elems (snd (enable L h cfg st))
         \<and> sheetText (snd (enable L h cfg (enable L h cfg st))) = sheetText (snd (enable L h cfg st))
         \<and> \<not> isEnabled (fst (disable h cfg st))
         \<and> disable h cfg (disable h cfg st) = disable h cfg st"
proof -
  obtain e d where st: "st = (e, d)" by (cases st)
  have "isEnabled (fst (enable L h cfg st))"
    unfolding st by (simp add: enable_def Let_def update_frame)
  moreover have "\<not> isEnabled (fst (disable h cfg st))"
    unfolding st by (simp add: disable_fst)
  ultimately show ?thesis
    using enable_twice[OF assms, of h cfg st] disable_twice[of h cfg st] by simp
qed

lemma grays_toHex_nonempty: "\<forall>c. c_toHex grays c \<noteq> ''''"
  by (simp add: grays_def g_toHex_def Let_def)

theorem enable_disable_idempotent_witness:
  "(\<forall>c. c_toHex grays c \<noteq> '''')
   \<and> isEnabled (fst (enable grays (hostA []) exampleConfig (new_engine pageA, domA)))
   \<and> fst (enable grays (hostA []) exampleConfig (enable grays (hostA []) exampleConfig (new_engine pageA, domA)))
       = fst (enable grays (hostA []) exampleConfig (new_engine pageA, domA))
   \<and> elems (snd (enable grays (hostA []) exampleConfig (enable grays (hostA []) exampleConfig (new_engine pageA, domA))))
       = elems (snd (enable grays (hostA []) exampleConfig (new_engine pageA, domA)))
   \<and> sheetText (snd (enable grays (hostA []) exampleConfig (enable grays (hostA []) exampleConfig (new_engine pageA, domA))))
       = sheetText (snd (enable grays (hostA []) exampleConfig (new_engine pageA, domA)))
   \<and> \<not> isEnabled (fst (disable (hostA []) exampleConfig (new_engine pageA, domA)))
   \<and> disable (hostA []) exampleConfig (disable (hostA []) exampleConfig (new_engine pageA, domA))
       = disable (hostA []) exampleConfig (new_engine pageA, domA)
   \<and> set (elements (fst (enable grays (hostA []) exampleConfig (new_engine pageA, domA)))) = {1, 2, 3, 5, 6, 7}"
proof -
  have "set (elements (fst (enable grays (hostA []) exampleConfig (new_engine pageA, domA))))
      = walkInserted pageA"
    by (simp add: enable_def Let_def update_fst fold_darken_frame walk_elements clear_def new_engine_def)
  moreover have "walkInserted pageA = {1, 2, 3, 5, 6, 7}"
    by (auto simp: walkInserted_def pageA_def walkScope_def querySelectorAll_def)
  ultimately show ?thesis
    using enable_disable_idempotent[OF grays_toHex_nonempty, of "hostA []" exampleConfig "(new_engine pageA, domA)"]
      grays_toHex_nonempty
    by simp
qed

end
